theory Spec2Isabelle
  imports Main
begin

section \<open>Python values\<close>

text \<open>
  The values that travel through the mapper: \<open>None\<close>, booleans, integers and byte
  strings. Floats, decimals and dates are left out; tuples and lists only occur as
  keyword arguments of the query functions and get their own type below.
\<close>

datatype pyval = PNone | PBool bool | PInt int | PStr string

text \<open>Python's \<open>==\<close>: \<open>bool\<close> is a subclass of \<open>int\<close>, so \<open>True == 1\<close>.\<close>

fun py_eq :: "pyval \<Rightarrow> pyval \<Rightarrow> bool" where
  "py_eq PNone PNone = True"
| "py_eq (PBool a) (PBool b) = (a = b)"
| "py_eq (PBool a) (PInt i) = ((if a then 1 else 0) = i)"
| "py_eq (PInt i) (PBool a) = (i = (if a then 1 else 0))"
| "py_eq (PInt i) (PInt j) = (i = j)"
| "py_eq (PStr s) (PStr t) = (s = t)"
| "py_eq _ _ = False"

text \<open>Truthiness, as tested by \<open>if x\<close>, \<open>not x\<close>, \<open>x or y\<close> and \<open>filter(None, ...)\<close>.\<close>

fun truthy :: "pyval \<Rightarrow> bool" where
  "truthy PNone = False"
| "truthy (PBool b) = b"
| "truthy (PInt i) = (i \<noteq> 0)"
| "truthy (PStr s) = (s \<noteq> [])"

fun str_nat :: "nat \<Rightarrow> string" where
  "str_nat n = (if n < 10 then [''0123456789'' ! n]
                else str_nat (n div 10) @ [''0123456789'' ! (n mod 10)])"

declare str_nat.simps [simp del]

definition str_int :: "int \<Rightarrow> string" where
  "str_int i = (if i < 0 then CHR ''-'' # str_nat (nat (- i)) else str_nat (nat i))"

text \<open>\<open>str(x)\<close>, which is also how the Redis client renders a command argument.\<close>

fun py_str :: "pyval \<Rightarrow> string" where
  "py_str PNone = ''None''"
| "py_str (PBool b) = (if b then ''True'' else ''False'')"
| "py_str (PInt i) = str_int i"
| "py_str (PStr s) = s"

text \<open>\<open>repr(x)\<close>; a string is quoted (escape sequences are not modelled).\<close>

fun py_repr :: "pyval \<Rightarrow> string" where
  "py_repr (PStr s) = [CHR 0x27] @ s @ [CHR 0x27]"
| "py_repr v = py_str v"


text \<open>A dictionary read with \<open>d.get(k)\<close>: a missing key reads as \<open>None\<close>.\<close>

type_synonym fields = "string \<rightharpoonup> pyval"

definition dget :: "fields \<Rightarrow> string \<Rightarrow> pyval" where
  "dget d k = (case d k of None \<Rightarrow> PNone | Some v \<Rightarrow> v)"

section \<open>Exceptions\<close>

text \<open>
  One constructor per exception class the code raises. \<open>UniqueKeyViolation\<close> carries
  the value and the unique-index key its message is formatted from; the other messages are
  kept without their formatted arguments.
\<close>

datatype error =
    ORMError string
  | ColumnError string
  | QueryError string
  | InvalidOperation string
  | InvalidColumnValue string
  | MissingColumn string
  | UniqueKeyViolation pyval string
  | KeyError string
  | ValueError
  | AttributeError
  | ResponseError

section \<open>Query objects\<close>

text \<open>
  An entry of \<open>Query._filters\<close>: a string \<open>'attr:value'\<close>, a triple
  \<open>(attr, min, max)\<close>, or a list of strings (an "or" of tokens).
\<close>

datatype filter_item =
    Token string
  | Range string pyval pyval
  | AnyOf "string list"

record query =
  q_model :: string
  q_filters :: "filter_item list"
  q_order_by :: pyval
  q_limit :: "(pyval \<times> pyval) option"

text \<open>\<open>Query.__init__(model, filters=(), order_by=None, limit=None)\<close>.\<close>

definition Query_init :: "string \<Rightarrow> query" where
  "Query_init m = \<lparr>q_model = m, q_filters = [], q_order_by = PNone, q_limit = None\<rparr>"

definition fmt_pair :: "string \<Rightarrow> string \<Rightarrow> string" where
  "fmt_pair a b = a @ '':'' @ b"











text \<open>\<open>s.lstrip('-')\<close>.\<close>

definition lstrip_dash :: "string \<Rightarrow> string" where
  "lstrip_dash s = dropWhile (\<lambda>c. c = CHR ''-'') s"

text \<open>
  \<open>Query.count\<close>. The index's own \<open>count\<close> lives in \<open>rom/index.py\<close> and is a
  parameter here. \<open>self._order_by.lstrip('-')\<close> exists on strings only.
\<close>

definition count_filters :: "query \<Rightarrow> error + filter_item list" where
  "count_filters q =
     (if truthy (q_order_by q) then
        (case q_order_by q of
           PStr s \<Rightarrow> Inr (q_filters q @ [Token (lstrip_dash s)])
         | _ \<Rightarrow> Inl AttributeError)
      else Inr (q_filters q))"

definition Query_count :: "(filter_item list \<Rightarrow> int) \<Rightarrow> query \<Rightarrow> error + int" where
  "Query_count gindex_count q =
     (case count_filters q of
        Inl e \<Rightarrow> Inl e
      | Inr filters \<Rightarrow>
          if filters = [] then Inl (QueryError ''You are missing filter or order criteria'')
          else Inr (gindex_count filters))"

section \<open>Columns and model classes\<close>

text \<open>
  What a key generator returns: a list, tuple or set of keys, a dictionary from sub-key to
  score, or any other value. Keys are kept as the strings that \<open>'%s:%s' % (attr, k)\<close>
  prints.
\<close>

datatype generated =
    GKeys "string list"
  | GScores "(string \<times> pyval) list"
  | GValue pyval

text \<open>
  The column classes differ in their descriptor methods: \<open>PrimaryKey\<close> and
  \<open>OneToMany\<close> override \<open>__set__\<close>, every other class keeps \<open>Column\<close>'s. The
  codec of a column (\<open>_allowed\<close>, \<open>_from_redis\<close>, \<open>_to_redis\<close>) is a field;
  \<open>_from_redis\<close> answers \<open>None\<close> where the conversion raises \<open>ValueError\<close> or
  \<open>TypeError\<close>. \<open>c_default = None\<close> is the sentinel \<open>NULL\<close>; callable defaults and
  the columns that hold references to other entities are left out.
\<close>

datatype col_class = PlainColumn | PrimaryKeyColumn | OneToManyColumn string

record column =
  c_class :: col_class
  c_required :: bool
  c_default :: "pyval option"
  c_unique :: bool
  c_index :: bool
  c_keygen :: "(pyval \<Rightarrow> generated) option"
  c_allowed :: "pyval \<Rightarrow> bool"
  c_from_redis :: "pyval \<Rightarrow> pyval option"
  c_to_redis :: "pyval \<Rightarrow> pyval"

text \<open>\<open>String\<close>: \<open>_allowed = str\<close>, \<open>_to_redis\<close> the identity, \<open>_from_redis = str\<close>.\<close>

definition is_str :: "pyval \<Rightarrow> bool" where
  "is_str v = (case v of PStr _ \<Rightarrow> True | _ \<Rightarrow> False)"

definition String :: "bool \<Rightarrow> bool \<Rightarrow> (pyval \<Rightarrow> generated) option \<Rightarrow> column" where
  "String required unique keygen =
     \<lparr>c_class = PlainColumn, c_required = required, c_default = None, c_unique = unique,
      c_index = (keygen \<noteq> None), c_keygen = keygen, c_allowed = is_str,
      c_from_redis = (\<lambda>v. Some (PStr (py_str v))), c_to_redis = (\<lambda>v. v)\<rparr>"

text \<open>\<open>isinstance(x, (int, long))\<close>; a \<open>bool\<close> is an \<open>int\<close>.\<close>

definition is_int :: "pyval \<Rightarrow> bool" where
  "is_int v = (case v of PInt _ \<Rightarrow> True | PBool _ \<Rightarrow> True | _ \<Rightarrow> False)"

text \<open>
  \<open>int(x)\<close>; parsing a string is Python's own and comes in as \<open>int_of_str\<close>
  (\<open>None\<close> for \<open>ValueError\<close>). \<open>int(None)\<close> is a \<open>TypeError\<close>.
\<close>

definition py_int :: "(string \<Rightarrow> int option) \<Rightarrow> pyval \<Rightarrow> int option" where
  "py_int int_of_str v =
     (case v of
        PNone \<Rightarrow> None
      | PBool b \<Rightarrow> Some (if b then 1 else 0)
      | PInt i \<Rightarrow> Some i
      | PStr s \<Rightarrow> int_of_str s)"

text \<open>
  \<open>PrimaryKey(index=False)\<close>, that is \<open>Column.__init__(required=False, default=None,
  unique=False, index=index)\<close> with \<open>_allowed = (int, long)\<close>; \<open>repr\<close> of an integer
  is its decimal string. No key generator is modelled for an indexed primary key
  (\<open>_numeric_keygen\<close> is in \<open>rom/util.py\<close>), so \<open>index\<close> is \<open>False\<close> here.
\<close>

definition PrimaryKey :: "(string \<Rightarrow> int option) \<Rightarrow> column" where
  "PrimaryKey int_of_str =
     \<lparr>c_class = PrimaryKeyColumn, c_required = False, c_default = Some PNone, c_unique = False,
      c_index = False, c_keygen = None, c_allowed = is_int,
      c_from_redis = (\<lambda>v. map_option PInt (py_int int_of_str v)),
      c_to_redis = (\<lambda>v. PStr (py_repr v))\<rparr>"

text \<open>A member of a class body: a column, or anything else (a method, a constant).\<close>

datatype member = Col column | NotAColumn

text \<open>
  Python dictionaries whose iteration order matters are association lists with distinct
  keys; \<open>d[k] = v\<close> replaces in place or appends.
\<close>

fun dict_set :: "'k \<Rightarrow> 'v \<Rightarrow> ('k \<times> 'v) list \<Rightarrow> ('k \<times> 'v) list" where
  "dict_set k v [] = [(k, v)]"
| "dict_set k v ((k', v') # d) = (if k = k' then (k, v) # d else (k', v') # dict_set k v d)"

definition dict_update :: "('k \<times> 'v) list \<Rightarrow> ('k \<times> 'v) list \<Rightarrow> ('k \<times> 'v) list" where
  "dict_update d e = fold (\<lambda>(k, v). dict_set k v) e d"

text \<open>\<open>s.add(x)\<close> on a set kept as a duplicate-free list.\<close>

definition set_add :: "'a \<Rightarrow> 'a list \<Rightarrow> 'a list" where
  "set_add x xs = (if x \<in> set xs then xs else xs @ [x])"

record model =
  m_name :: string
  m_required :: "string list"
  m_index :: "string list"
  m_unique :: "string list"
  m_columns :: "(string \<times> column) list"
  m_pkey :: "string option"

definition is_pkey_member :: "member \<Rightarrow> bool" where
  "is_pkey_member m = (case m of Col c \<Rightarrow> c_class c = PrimaryKeyColumn | NotAColumn \<Rightarrow> False)"

text \<open>
  The validation loop of \<open>_ModelMetaclass.__new__\<close> over \<open>dict.iteritems()\<close>, with the
  class under construction as accumulator: first what the loop records of a column before
  it looks at \<open>_unique\<close>, then what it records after the test on \<open>unique\<close> has passed.
\<close>

definition record_column :: "string \<Rightarrow> column \<Rightarrow> model \<Rightarrow> model" where
  "record_column attr col acc =
     (let acc1 = acc\<lparr>m_columns := m_columns acc @ [(attr, col)]\<rparr>;
          acc2 = (if c_required col then acc1\<lparr>m_required := set_add attr (m_required acc1)\<rparr> else acc1)
      in if c_index col then acc2\<lparr>m_index := set_add attr (m_index acc2)\<rparr> else acc2)"

definition record_unique_pkey :: "string \<Rightarrow> column \<Rightarrow> model \<Rightarrow> model" where
  "record_unique_pkey attr col acc =
     (let acc1 = (if c_unique col then acc\<lparr>m_unique := set_add attr (m_unique acc)\<rparr> else acc)
      in if c_class col = PrimaryKeyColumn then acc1\<lparr>m_pkey := Some attr\<rparr> else acc1)"

fun validate_columns :: "bool \<Rightarrow> (string \<times> member) list \<Rightarrow> model \<Rightarrow> error + model" where
  "validate_columns use_lua [] acc = Inr acc"
| "validate_columns use_lua ((attr, NotAColumn) # rest) acc = validate_columns use_lua rest acc"
| "validate_columns use_lua ((attr, Col col) # rest) acc =
     (if c_unique col \<and> m_unique (record_column attr col acc) \<noteq> [] \<and> \<not> use_lua
      then Inl (ColumnError ''Only one unique column allowed'')
      else validate_columns use_lua rest (record_unique_pkey attr col (record_column attr col acc)))"

text \<open>
  \<open>_ModelMetaclass.__new__(cls, name, bases, dict)\<close>. \<open>use_lua\<close> is the global
  \<open>USE_LUA\<close>, \<open>MODELS\<close> the names already registered, \<open>bases\<close> the \<open>_columns\<close> of
  each base class that has one, in the order \<open>reversed(bases)\<close> visits them. The result is
  the new class; the caller registers its name.
\<close>

definition merge_bases :: "(string \<times> column) list list \<Rightarrow> (string \<times> member) list \<Rightarrow> (string \<times> member) list" where
  "merge_bases bases dict =
     dict_update (fold (\<lambda>b d. dict_update d (map (\<lambda>(a, c). (a, Col c)) b)) bases []) dict"

definition ModelMetaclass_new ::
  "bool \<Rightarrow> (string \<Rightarrow> int option) \<Rightarrow> string set \<Rightarrow> string \<Rightarrow> (string \<times> column) list list \<Rightarrow>
   (string \<times> member) list \<Rightarrow> error + model" where
  "ModelMetaclass_new use_lua int_of_str MODELS name bases dict =
     (if name \<in> MODELS then Inl (ORMError ''Cannot have two models with the same name'')
      else
        (let odict = merge_bases bases dict
         in if \<not> list_ex (\<lambda>(a, m). is_pkey_member m) odict \<and> ''id'' \<in> fst ` set odict
            then Inl (ColumnError ''Cannot have non-primary key named 'id' '')
            else
              (let odict' = (if \<not> list_ex (\<lambda>(a, m). is_pkey_member m) odict
                             then dict_set ''id'' (Col (PrimaryKey int_of_str)) odict else odict)
               in validate_columns use_lua odict'
                    \<lparr>m_name = name, m_required = [], m_index = [], m_unique = [],
                     m_columns = [], m_pkey = None\<rparr>)))"

text \<open>The members of a class body that are unique columns.\<close>

definition is_unique_member :: "member \<Rightarrow> bool" where
  "is_unique_member m = (case m of Col c \<Rightarrow> c_unique c | NotAColumn \<Rightarrow> False)"

section \<open>The store\<close>

text \<open>
  The Redis keyspace, by type of value: hashes (entity records \<open>Model:pk\<close> and unique
  indexes \<open>Model:attr:uidx\<close>), sets and sorted sets (indexes \<open>Model:key:idx\<close>), and
  integer counters (\<open>Model:attr:\<close>). The hash \<open>Model::\<close> maps an entity id to the JSON
  text of its index manifest, a pair of key lists; it is kept decoded in \<open>manifests\<close>.
\<close>

record store =
  hashes :: "string \<Rightarrow> string \<rightharpoonup> string"
  sets :: "string \<Rightarrow> string set"
  zsets :: "string \<Rightarrow> string \<rightharpoonup> string"
  counters :: "string \<rightharpoonup> int"
  manifests :: "string \<Rightarrow> string \<rightharpoonup> (string list \<times> string list)"

definition hget :: "store \<Rightarrow> string \<Rightarrow> string \<Rightarrow> string option" where
  "hget s key field = hashes s key field"

definition hset :: "string \<Rightarrow> string \<Rightarrow> string \<Rightarrow> store \<Rightarrow> store" where
  "hset key field v s = s\<lparr>hashes := (hashes s)(key := (hashes s key)(field \<mapsto> v))\<rparr>"

definition hdel :: "string \<Rightarrow> string \<Rightarrow> store \<Rightarrow> store" where
  "hdel key field s = s\<lparr>hashes := (hashes s)(key := (hashes s key)(field := None))\<rparr>"

definition hmset :: "string \<Rightarrow> (string \<times> string) list \<Rightarrow> store \<Rightarrow> store" where
  "hmset key fvs s = fold (\<lambda>(f, v). hset key f v) fvs s"

definition delete_key :: "string \<Rightarrow> store \<Rightarrow> store" where
  "delete_key key s =
     s\<lparr>hashes := (hashes s)(key := Map.empty), sets := (sets s)(key := {}),
       zsets := (zsets s)(key := Map.empty), counters := (counters s)(key := None),
       manifests := (manifests s)(key := Map.empty)\<rparr>"

definition srem :: "string \<Rightarrow> string \<Rightarrow> store \<Rightarrow> store" where
  "srem key m s = s\<lparr>sets := (sets s)(key := sets s key - {m})\<rparr>"

definition sadd :: "string \<Rightarrow> string \<Rightarrow> store \<Rightarrow> store" where
  "sadd key m s = s\<lparr>sets := (sets s)(key := insert m (sets s key))\<rparr>"

definition zrem :: "string \<Rightarrow> string \<Rightarrow> store \<Rightarrow> store" where
  "zrem key m s = s\<lparr>zsets := (zsets s)(key := (zsets s key)(m := None))\<rparr>"

definition zadd :: "string \<Rightarrow> string \<Rightarrow> string \<Rightarrow> store \<Rightarrow> store" where
  "zadd key score m s = s\<lparr>zsets := (zsets s)(key := (zsets s key)(m \<mapsto> score))\<rparr>"

definition incr :: "string \<Rightarrow> store \<Rightarrow> int \<times> store" where
  "incr key s =
     (let n = (case counters s key of None \<Rightarrow> 0 | Some c \<Rightarrow> c) + 1
      in (n, s\<lparr>counters := (counters s)(key \<mapsto> n)\<rparr>))"

section \<open>Entities\<close>

record entity =
  e_new :: bool
  e_data :: fields
  e_last :: fields
  e_modified :: bool
  e_deleted :: bool
  e_init :: bool

text \<open>\<open>Column._validate\<close>.\<close>

definition Column_validate :: "column \<Rightarrow> pyval \<Rightarrow> error + unit" where
  "Column_validate ca v =
     (if v \<noteq> PNone then
        (if c_allowed ca v then Inr ()
         else Inl (InvalidColumnValue ''has the wrong type''))
      else if \<not> c_required ca then Inr ()
      else Inl (InvalidColumnValue ''has the wrong type''))"

text \<open>\<open>Column._init_(obj, model, attr, value, loading)\<close>.\<close>

definition Column_init :: "column \<Rightarrow> string \<Rightarrow> pyval \<Rightarrow> bool \<Rightarrow> entity \<Rightarrow> error + entity" where
  "Column_init ca attr v loading obj =
     (case (if v = PNone then
              (case c_default ca of
                 None \<Rightarrow> if c_required ca then Inl (MissingColumn ''cannot be missing'') else Inr v
               | Some d \<Rightarrow> Inr d)
            else if \<not> c_allowed ca v then
              (case c_from_redis ca v of
                 None \<Rightarrow> Inl (InvalidColumnValue ''conversion failed'')
               | Some w \<Rightarrow> Inr w)
            else Inr v) of
        Inl e \<Rightarrow> Inl e
      | Inr w \<Rightarrow>
          (case (if \<not> loading then Column_validate ca w else Inr ()) of
             Inl e \<Rightarrow> Inl e
           | Inr _ \<Rightarrow> Inr (obj\<lparr>e_data := (e_data obj)(attr \<mapsto> w)\<rparr>)))"

text \<open>
  \<open>PrimaryKey._init_(obj, model, attr, value, loading)\<close>: a missing value is drawn from
  the counter \<open>model:attr:\<close>; \<open>int(value)\<close> is not guarded.
\<close>

definition PrimaryKey_init ::
  "(string \<Rightarrow> int option) \<Rightarrow> string \<Rightarrow> string \<Rightarrow> pyval \<Rightarrow> entity \<Rightarrow> store \<Rightarrow> (error + entity) \<times> store" where
  "PrimaryKey_init int_of_str mname attr v obj s =
     (if v = PNone then
        (let (n, s') = incr (fmt_pair mname attr @ '':'') s
         in (Inr (obj\<lparr>e_data := (e_data obj)(attr \<mapsto> PInt n), e_modified := True\<rparr>), s'))
      else
        (case py_int int_of_str v of
           None \<Rightarrow> (Inl ValueError, s)
         | Some i \<Rightarrow> (Inr (obj\<lparr>e_data := (e_data obj)(attr \<mapsto> PInt i)\<rparr>), s)))"

text \<open>
  \<open>Column.__set__(obj, value)\<close> on an entity whose construction is over
  (\<open>obj._init\<close> holds).
\<close>

definition Column_set_value :: "column \<Rightarrow> string \<Rightarrow> pyval \<Rightarrow> entity \<Rightarrow> error + entity" where
  "Column_set_value ca attr v obj =
     (case c_from_redis ca v of
        None \<Rightarrow> Inl (InvalidColumnValue ''Cannot convert'')
      | Some w \<Rightarrow>
          (case Column_validate ca w of
             Inl e \<Rightarrow> Inl e
           | Inr _ \<Rightarrow> Inr (obj\<lparr>e_data := (e_data obj)(attr \<mapsto> w), e_modified := True\<rparr>)))"

text \<open>
  The three \<open>__set__\<close> methods. While \<open>obj._init\<close> is false the value is the tuple
  \<open>(model, attr, value, loading)\<close> that \<open>Model.__init__\<close> passes; afterwards it is the
  value assigned by \<open>obj.attr = value\<close>, and \<open>loading\<close> is not looked at.
\<close>

definition column_set ::
  "(string \<Rightarrow> int option) \<Rightarrow> string set \<Rightarrow> string \<Rightarrow> string \<Rightarrow> column \<Rightarrow> pyval \<Rightarrow> bool \<Rightarrow>
   entity \<Rightarrow> store \<Rightarrow> (error + entity) \<times> store" where
  "column_set int_of_str MODELS mname attr ca v loading obj s =
     (case c_class ca of
        PrimaryKeyColumn \<Rightarrow>
          (if \<not> e_init obj then PrimaryKey_init int_of_str mname attr v obj s
           else (Inl (InvalidOperation ''Cannot update primary key value''), s))
      | OneToManyColumn ftable \<Rightarrow>
          (if \<not> e_init obj then
             (if ftable \<in> MODELS then (Inr obj, s)
              else (Inl (ORMError ''Missing foreign table''), s))
           else (Inl (InvalidOperation ''Cannot assign to OneToMany relationships''), s))
      | PlainColumn \<Rightarrow>
          (if \<not> e_init obj then (Column_init ca attr v loading obj, s)
           else (Column_set_value ca attr v obj, s)))"

text \<open>The loop of \<open>Model.__init__\<close> over \<open>self._columns\<close>.\<close>

fun init_columns ::
  "(string \<Rightarrow> int option) \<Rightarrow> string set \<Rightarrow> model \<Rightarrow> fields \<Rightarrow> (string \<times> column) list \<Rightarrow>
   entity \<Rightarrow> store \<Rightarrow> (error + entity) \<times> store" where
  "init_columns int_of_str MODELS cls kwargs [] obj s = (Inr obj, s)"
| "init_columns int_of_str MODELS cls kwargs ((attr, ca) # rest) obj s =
     (let cval = dget kwargs attr in
      if e_new obj \<and> Some attr = m_pkey cls \<and> truthy cval
      then (Inl (InvalidColumnValue ''Cannot pass primary key on object creation''), s)
      else
        (case column_set int_of_str MODELS (m_name cls) attr ca cval (\<not> e_new obj) obj s of
           (Inl e, s') \<Rightarrow> (Inl e, s')
         | (Inr obj', s') \<Rightarrow>
             (let obj'' =
                (if cval \<noteq> PNone then
                   obj'\<lparr>e_last := (e_last obj')(attr \<mapsto> (if is_str cval then cval else c_to_redis ca cval))\<rparr>
                 else obj')
              in init_columns int_of_str MODELS cls kwargs rest obj'' s')))"

text \<open>
  \<open>Model.__init__(self, **kwargs)\<close>; \<open>loading\<close> is the keyword \<open>_loading\<close>. The
  session the entity is added to is not part of the model.
\<close>

definition Model_init ::
  "(string \<Rightarrow> int option) \<Rightarrow> string set \<Rightarrow> model \<Rightarrow> bool \<Rightarrow> fields \<Rightarrow> store \<Rightarrow> (error + entity) \<times> store" where
  "Model_init int_of_str MODELS cls loading kwargs s =
     (case init_columns int_of_str MODELS cls kwargs (m_columns cls)
             \<lparr>e_new = \<not> loading, e_data = Map.empty, e_last = Map.empty, e_modified = False,
              e_deleted = False, e_init = False\<rparr> s of
        (Inl e, s') \<Rightarrow> (Inl e, s')
      | (Inr obj, s') \<Rightarrow> (Inr (obj\<lparr>e_init := True\<rparr>), s'))"

text \<open>
  \<open>obj.attr = value\<close> from outside: Python looks the descriptor up on the class and
  calls its \<open>__set__\<close>. A name that is not a column lands in the instance dictionary,
  which is outside the modelled state.
\<close>

definition setattr ::
  "(string \<Rightarrow> int option) \<Rightarrow> string set \<Rightarrow> model \<Rightarrow> string \<Rightarrow> pyval \<Rightarrow> entity \<Rightarrow> store \<Rightarrow>
   (error + entity) \<times> store" where
  "setattr int_of_str MODELS cls attr v obj s =
     (case map_of (m_columns cls) attr of
        None \<Rightarrow> (Inr obj, s)
      | Some ca \<Rightarrow> column_set int_of_str MODELS (m_name cls) attr ca v False obj s)"

section \<open>Commands and the index\<close>

text \<open>
  A command buffered in the pipeline; its arguments are already rendered as the client
  sends them (\<open>py_str\<close>). The two index commands stand for what
  \<open>GeneralIndex.index\<close> and \<open>GeneralIndex._unindex\<close> queue.
\<close>

datatype cmd =
    HDel string string
  | HSet string string string
  | HMSet string "(string \<times> string) list"
  | Delete string
  | GIndex string string "string list" "(string \<times> string) list"
  | GUnindex string string

definition uidx_key :: "string \<Rightarrow> string \<Rightarrow> string" where
  "uidx_key ns attr = ns @ '':'' @ attr @ '':uidx''"

definition idx_key :: "string \<Rightarrow> string \<Rightarrow> string" where
  "idx_key ns k = ns @ '':'' @ k @ '':idx''"

definition manifest_key :: "string \<Rightarrow> string" where
  "manifest_key ns = ns @ ''::''"

text \<open>
  Removing the index entries that the manifest of the entity lists: the block "remove old
  index data" of the Lua writer.
\<close>

definition remove_old_index :: "string \<Rightarrow> string \<Rightarrow> store \<Rightarrow> store" where
  "remove_old_index ns eid s =
     (case manifests s (manifest_key ns) eid of
        None \<Rightarrow> s
      | Some (ks, zs) \<Rightarrow>
          fold (\<lambda>k. zrem (idx_key ns k) eid) zs (fold (\<lambda>k. srem (idx_key ns k) eid) ks s))"

definition set_manifest :: "string \<Rightarrow> string \<Rightarrow> (string list \<times> string list) option \<Rightarrow> store \<Rightarrow> store" where
  "set_manifest ns eid m s =
     s\<lparr>manifests := (manifests s)(manifest_key ns := (manifests s (manifest_key ns))(eid := m))\<rparr>"

text \<open>The blocks "add new key index data" to "update known index data" of the Lua writer.\<close>

definition write_new_index :: "string \<Rightarrow> string \<Rightarrow> string list \<Rightarrow> (string \<times> string) list \<Rightarrow> store \<Rightarrow> store" where
  "write_new_index ns eid ks zs s =
     set_manifest ns eid (Some (ks, map fst zs))
       (fold (\<lambda>(k, score). zadd (idx_key ns k) score eid) zs
          (fold (\<lambda>k. sadd (idx_key ns k) eid) ks s))"

text \<open>
  Modelled from the spec: \<open>GeneralIndex.index\<close> of \<open>rom/index.py\<close>, which is not among
  the sources. The spec has the manifest "replaced wholesale on every subsequent
  index-affecting write" and stale entries retracted through it; the effect is taken to be
  the one the Lua writer has for the same data.
\<close>

definition gindex_index :: "string \<Rightarrow> string \<Rightarrow> string list \<Rightarrow> (string \<times> string) list \<Rightarrow> store \<Rightarrow> store" where
  "gindex_index ns eid ks zs s = write_new_index ns eid ks zs (remove_old_index ns eid s)"

text \<open>
  Modelled from the spec: \<open>GeneralIndex._unindex\<close> of \<open>rom/index.py\<close>. "Deletion:
  retracts every membership token and range sub-key in the entity's manifest, removes the
  record, and removes the manifest itself"; the record is removed by the caller.
\<close>

definition gindex_unindex :: "string \<Rightarrow> string \<Rightarrow> store \<Rightarrow> store" where
  "gindex_unindex ns eid s = set_manifest ns eid None (remove_old_index ns eid s)"

fun exec_cmd :: "cmd \<Rightarrow> store \<Rightarrow> store" where
  "exec_cmd (HDel key field) s = hdel key field s"
| "exec_cmd (HSet key field v) s = hset key field v s"
| "exec_cmd (HMSet key fvs) s = hmset key fvs s"
| "exec_cmd (Delete key) s = delete_key key s"
| "exec_cmd (GIndex ns eid ks zs) s = gindex_index ns eid ks zs s"
| "exec_cmd (GUnindex ns eid) s = gindex_unindex ns eid s"

definition exec_cmds :: "cmd list \<Rightarrow> store \<Rightarrow> store" where
  "exec_cmds cs s = fold exec_cmd cs s"

text \<open>The keys a command writes, for \<open>WATCH\<close>.\<close>

fun touched :: "store \<Rightarrow> cmd \<Rightarrow> string list" where
  "touched s (HDel key field) = [key]"
| "touched s (HSet key field v) = [key]"
| "touched s (HMSet key fvs) = [key]"
| "touched s (Delete key) = [key]"
| "touched s (GIndex ns eid ks zs) =
     manifest_key ns # map (idx_key ns) (ks @ map fst zs) @
     (case manifests s (manifest_key ns) eid of
        None \<Rightarrow> [] | Some (oks, ozs) \<Rightarrow> map (idx_key ns) (oks @ ozs))"
| "touched s (GUnindex ns eid) =
     manifest_key ns #
     (case manifests s (manifest_key ns) eid of
        None \<Rightarrow> [] | Some (oks, ozs) \<Rightarrow> map (idx_key ns) (oks @ ozs))"

section \<open>The Lua writer\<close>

text \<open>
  A JSON value as an argument of \<open>redis.call\<close>: strings and numbers pass, \<open>null\<close> and
  booleans make the call, and with it the script, fail.
\<close>

fun lua_arg :: "pyval \<Rightarrow> string option" where
  "lua_arg PNone = None"
| "lua_arg (PBool b) = None"
| "lua_arg (PInt i) = Some (str_int i)"
| "lua_arg (PStr s) = Some s"

datatype lua_result = LuaNumber nat | LuaString string | LuaError

text \<open>
  The first pass of "check and update unique column constraints" (\<open>write = false\<close>):
  the answer is the column whose value another eid holds, an error, or nothing.
\<close>

fun lua_unique_check :: "string \<Rightarrow> string \<Rightarrow> (string \<times> pyval) list \<Rightarrow> store \<Rightarrow> lua_result option" where
  "lua_unique_check ns eid [] s = None"
| "lua_unique_check ns eid ((col, v) # rest) s =
     (case lua_arg v of
        None \<Rightarrow> Some LuaError
      | Some f \<Rightarrow>
          (case hget s (uidx_key ns col) f of
             None \<Rightarrow> lua_unique_check ns eid rest s
           | Some known \<Rightarrow>
               if known \<noteq> eid then Some (LuaString col) else lua_unique_check ns eid rest s))"

text \<open>The second pass (\<open>write = true\<close>).\<close>

fun lua_unique_write :: "string \<Rightarrow> string \<Rightarrow> (string \<times> pyval) list \<Rightarrow> store \<Rightarrow> lua_result option \<times> store" where
  "lua_unique_write ns eid [] s = (None, s)"
| "lua_unique_write ns eid ((col, v) # rest) s =
     (case lua_arg v of
        None \<Rightarrow> (Some LuaError, s)
      | Some f \<Rightarrow> lua_unique_write ns eid rest (hset (uidx_key ns col) f eid s))"

text \<open>"remove deleted unique constraints".\<close>

fun lua_unique_delete :: "string \<Rightarrow> string \<Rightarrow> (string \<times> pyval) list \<Rightarrow> store \<Rightarrow> lua_result option \<times> store" where
  "lua_unique_delete ns eid [] s = (None, s)"
| "lua_unique_delete ns eid ((col, v) # rest) s =
     (case lua_arg v of
        None \<Rightarrow> (Some LuaError, s)
      | Some f \<Rightarrow>
          lua_unique_delete ns eid rest
            (if hget s (uidx_key ns col) f = Some eid then hdel (uidx_key ns col) f s else s))"

text \<open>The arguments of \<open>HMSET\<close>, if all of them can be passed.\<close>

fun lua_args :: "(string \<times> pyval) list \<Rightarrow> (string \<times> string) list option" where
  "lua_args [] = Some []"
| "lua_args ((k, v) # rest) =
     (case lua_arg v of
        None \<Rightarrow> None
      | Some f \<Rightarrow> map_option ((#) (k, f)) (lua_args rest))"

text \<open>
  The script \<open>_redis_writer_lua\<close>. A failing \<open>redis.call\<close> ends the script; what it
  wrote before stays written.
\<close>

definition redis_writer_lua_script ::
  "string \<Rightarrow> string \<Rightarrow> (string \<times> pyval) list \<Rightarrow> (string \<times> pyval) list \<Rightarrow> string list \<Rightarrow>
   (string \<times> pyval) list \<Rightarrow> string list \<Rightarrow> (string \<times> pyval) list \<Rightarrow> store \<Rightarrow> lua_result \<times> store" where
  "redis_writer_lua_script ns eid unique udelete deleted data nkeys scored s =
     (case lua_unique_check ns eid unique s of
        Some r \<Rightarrow> (r, s)
      | None \<Rightarrow>
     (case lua_unique_write ns eid unique s of
        (Some r, s1) \<Rightarrow> (r, s1)
      | (None, s1) \<Rightarrow>
     (case lua_unique_delete ns eid udelete s1 of
        (Some r, s2) \<Rightarrow> (r, s2)
      | (None, s2) \<Rightarrow>
     (let s3 = (if deleted \<noteq> [] then fold (hdel (fmt_pair ns eid)) deleted s2 else s2) in
      case lua_args data of
        None \<Rightarrow> (LuaError, s3)
      | Some fvs \<Rightarrow>
     (let s4 = (if fvs \<noteq> [] then hmset (fmt_pair ns eid) fvs s3 else s3);
          s5 = remove_old_index ns eid s4;
          s6 = fold (\<lambda>k. sadd (idx_key ns k) eid) nkeys s5
      in case lua_args scored of
           None \<Rightarrow> (LuaError, s6)
         | Some zs \<Rightarrow>
             (LuaNumber (length nkeys + length zs),
              set_manifest ns eid (Some (nkeys, map fst zs))
                (fold (\<lambda>(k, score). zadd (idx_key ns k) score eid) zs s6)))))))"

text \<open>
  \<open>redis_writer_lua\<close>: a string answer names the column of the violated constraint. An
  error of the script surfaces as the client's \<open>ResponseError\<close>.
\<close>

definition redis_writer_lua ::
  "string \<Rightarrow> string \<Rightarrow> (string \<times> pyval) list \<Rightarrow> (string \<times> pyval) list \<Rightarrow> string list \<Rightarrow>
   (string \<times> pyval) list \<Rightarrow> string list \<Rightarrow> (string \<times> pyval) list \<Rightarrow> store \<Rightarrow> (error + unit) \<times> store" where
  "redis_writer_lua ns eid unique udelete deleted data keys scored s =
     (case redis_writer_lua_script ns eid unique udelete deleted data keys scored s of
        (LuaString col, s') \<Rightarrow>
          (Inl (UniqueKeyViolation (case map_of unique col of None \<Rightarrow> PNone | Some v \<Rightarrow> v)
                  (uidx_key ns col)), s')
      | (LuaError, s') \<Rightarrow> (Inl ResponseError, s')
      | (LuaNumber n, s') \<Rightarrow> (Inr (), s'))"

section \<open>Applying changes\<close>

text \<open>The locals of one pass of the \<open>while 1\<close> loop of \<open>Model._apply_changes\<close>.\<close>

record work =
  w_changes :: nat
  w_keys :: "string list"
  w_scores :: "(string \<times> pyval) list"
  w_data :: "(string \<times> pyval) list"
  w_unique :: "(string \<times> pyval) list"
  w_deleted :: "string list"
  w_udeleted :: "(string \<times> pyval) list"
  w_pipe :: "cmd list"
  w_watched :: "string list"

definition new_work :: work where
  "new_work = \<lparr>w_changes = 0, w_keys = [], w_scores = [], w_data = [], w_unique = [],
               w_deleted = [], w_udeleted = [], w_pipe = [], w_watched = []\<rparr>"

text \<open>
  The test that guards the unique check of a column: \<open>nuval and (ouval != nuvale or
  full)\<close>.
\<close>

definition needs_unique_check :: "column \<Rightarrow> fields \<Rightarrow> fields \<Rightarrow> bool \<Rightarrow> string \<Rightarrow> bool" where
  "needs_unique_check ca old new full col =
     (truthy (dget new col) \<and> (\<not> py_eq (dget old col) (c_to_redis ca (dget new col)) \<or> full))"

text \<open>
  "check for unique keys" without Lua: the loop over \<open>cls._unique\<close>. It reads the
  store under \<open>WATCH\<close>; the watched keys are collected.
\<close>

fun unique_check ::
  "model \<Rightarrow> fields \<Rightarrow> fields \<Rightarrow> bool \<Rightarrow> pyval \<Rightarrow> store \<Rightarrow> string list \<Rightarrow> string list \<Rightarrow> error + string list" where
  "unique_check cls old new full pk s [] watched = Inr watched"
| "unique_check cls old new full pk s (col # cols) watched =
     (case map_of (m_columns cls) col of
        None \<Rightarrow> Inl (KeyError col)
      | Some ca \<Rightarrow>
          if \<not> needs_unique_check ca old new full col
          then unique_check cls old new full pk s cols watched
          else
            (let ikey = uidx_key (m_name cls) col;
                 ival = hget s ikey (py_str (c_to_redis ca (dget new col)))
             in if ival = None \<or> ival = Some [] \<or> ival = Some (py_str pk)
                then unique_check cls old new full pk s cols (watched @ [ikey])
                else Inl (UniqueKeyViolation (dget new col) ikey)))"

text \<open>"Add/update standard index": what the generated value adds to \<open>keys\<close> and \<open>scores\<close>.\<close>

definition add_generated :: "string \<Rightarrow> generated \<Rightarrow> work \<Rightarrow> error + work" where
  "add_generated attr g w =
     (case g of
        GKeys ks \<Rightarrow> Inr (w\<lparr>w_keys := fold (\<lambda>k. set_add (fmt_pair attr k)) ks (w_keys w)\<rparr>)
      | GScores kvs \<Rightarrow>
          Inr (w\<lparr>w_scores := fold (\<lambda>(k, v). dict_set (if k = [] then attr else fmt_pair attr k) v)
                                kvs (w_scores w)\<rparr>)
      | GValue v \<Rightarrow>
          if \<not> truthy v then Inr w
          else Inl (ColumnError ''Don't know how to turn the value into a sequence of keys''))"

text \<open>Whether the key generator of a column is called in this pass.\<close>

definition keygen_called :: "column \<Rightarrow> bool \<Rightarrow> pyval \<Rightarrow> bool" where
  "keygen_called ca delete nval = (c_keygen ca \<noteq> None \<and> \<not> delete \<and> nval \<noteq> PNone)"

definition index_step :: "string \<Rightarrow> column \<Rightarrow> bool \<Rightarrow> pyval \<Rightarrow> work \<Rightarrow> error + work" where
  "index_step attr ca delete nval w =
     (if keygen_called ca delete nval then add_generated attr (the (c_keygen ca) nval) w
      else Inr w)"

text \<open>
  The rest of the loop body, from the test \<open>nval == oval and not full\<close> on. A failing
  \<open>_from_redis\<close> is a \<open>ValueError\<close> that nothing catches.
\<close>

definition write_step ::
  "bool \<Rightarrow> string \<Rightarrow> pyval \<Rightarrow> bool \<Rightarrow> string option \<Rightarrow> string \<Rightarrow> pyval \<Rightarrow> pyval \<Rightarrow> pyval \<Rightarrow> pyval \<Rightarrow>
   work \<Rightarrow> work" where
  "write_step use_lua key pk full ikey attr roval oval nval rnval w =
     (if py_eq nval oval \<and> \<not> full then w
      else
        (let w1 = w\<lparr>w_changes := w_changes w + 1\<rparr> in
         if nval = PNone \<and> oval \<noteq> PNone then
           (if use_lua then
              (let w2 = w1\<lparr>w_deleted := w_deleted w1 @ [attr]\<rparr> in
               case ikey of
                 None \<Rightarrow> w2
               | Some ik \<Rightarrow> w2\<lparr>w_udeleted := dict_set attr roval (w_udeleted w2)\<rparr>)
            else
              (case ikey of
                 None \<Rightarrow> w1\<lparr>w_pipe := w_pipe w1 @ [HDel key attr]\<rparr>
               | Some ik \<Rightarrow> w1\<lparr>w_pipe := w_pipe w1 @ [HDel key attr, HDel ik (py_str roval)]\<rparr>))
         else
           (let w2 = (if nval \<noteq> PNone then w1\<lparr>w_data := dict_set attr rnval (w_data w1)\<rparr> else w1) in
            case ikey of
              None \<Rightarrow> w2
            | Some ik \<Rightarrow>
                if use_lua then
                  (let w3 = (if oval \<noteq> PNone \<and> \<not> py_eq oval rnval
                             then w2\<lparr>w_udeleted := dict_set attr oval (w_udeleted w2)\<rparr> else w2)
                   in w3\<lparr>w_unique := dict_set attr rnval (w_unique w3)\<rparr>)
                else
                  w2\<lparr>w_pipe := w_pipe w2 @ (if oval \<noteq> PNone then [HDel ik (py_str roval)] else []) @
                                 [HSet ik (py_str rnval) (py_str pk)]\<rparr>)))"

text \<open>One pass of "update individual columns" for the column \<open>attr\<close>.\<close>

definition column_step ::
  "bool \<Rightarrow> model \<Rightarrow> fields \<Rightarrow> fields \<Rightarrow> bool \<Rightarrow> bool \<Rightarrow> pyval \<Rightarrow> string \<Rightarrow> column \<Rightarrow> work \<Rightarrow> error + work" where
  "column_step use_lua cls old new full delete pk attr ca w =
     (let ikey = (if attr \<in> set (m_unique cls) then Some (uidx_key (m_name cls) attr) else None);
          roval = dget old attr;
          nval = dget new attr;
          rnval = (if nval \<noteq> PNone then c_to_redis ca nval else PNone)
      in case (if roval \<noteq> PNone then c_from_redis ca roval else Some PNone) of
           None \<Rightarrow> Inl ValueError
         | Some oval \<Rightarrow>
             (case index_step attr ca delete nval w of
                Inl e \<Rightarrow> Inl e
              | Inr w1 \<Rightarrow>
                  Inr (write_step use_lua (fmt_pair (m_name cls) (py_str pk)) pk full ikey attr
                         roval oval nval rnval w1)))"

fun column_loop ::
  "bool \<Rightarrow> model \<Rightarrow> fields \<Rightarrow> fields \<Rightarrow> bool \<Rightarrow> bool \<Rightarrow> pyval \<Rightarrow> (string \<times> column) list \<Rightarrow> work \<Rightarrow> error + work" where
  "column_loop use_lua cls old new full delete pk [] w = Inr w"
| "column_loop use_lua cls old new full delete pk ((attr, ca) # rest) w =
     (case column_step use_lua cls old new full delete pk attr ca w of
        Inl e \<Rightarrow> Inl e
      | Inr w' \<Rightarrow> column_loop use_lua cls old new full delete pk rest w')"

text \<open>
  The loop body up to the point where the pass either commits or calls the script: the
  check on the number of unique columns, the unique check, the loop over the columns.
\<close>

definition gather ::
  "bool \<Rightarrow> model \<Rightarrow> fields \<Rightarrow> fields \<Rightarrow> bool \<Rightarrow> bool \<Rightarrow> pyval \<Rightarrow> store \<Rightarrow> error + work" where
  "gather use_lua cls old new full delete pk s =
     (if length (m_unique cls) > 1 \<and> \<not> use_lua
      then Inl (ColumnError ''Only one unique column allowed'')
      else
        (case (if \<not> use_lua then unique_check cls old new full pk s (m_unique cls) [] else Inr []) of
           Inl e \<Rightarrow> Inl e
         | Inr watched \<Rightarrow>
             column_loop use_lua cls old new full delete pk (m_columns cls)
               (new_work\<lparr>w_watched := watched\<rparr>)))"

text \<open>
  The writes of other clients. \<open>env i\<close> is what they run between the reads of pass
  \<open>i\<close> and its \<open>EXEC\<close>; the pass is invalidated when they write a watched key.
\<close>

definition invalidated :: "string list \<Rightarrow> cmd list \<Rightarrow> store \<Rightarrow> bool" where
  "invalidated watched others s =
     list_ex (\<lambda>c. list_ex (\<lambda>k. k \<in> set watched) (touched s c)) others"

text \<open>\<open>pipe.execute()\<close>: either \<open>WatchError\<close> and the buffer is dropped, or the commit.\<close>

datatype 'a pass = Return 'a | Retry store

definition execute :: "work \<Rightarrow> cmd list \<Rightarrow> store \<Rightarrow> ((error + nat) \<times> store) pass" where
  "execute w others s =
     (if invalidated (w_watched w) others s then Retry (exec_cmds others s)
      else Return (Inr (w_changes w), exec_cmds (w_pipe w) (exec_cmds others s)))"

definition render :: "(string \<times> pyval) list \<Rightarrow> (string \<times> string) list" where
  "render kvs = map (\<lambda>(k, v). (k, py_str v)) kvs"

text \<open>One pass of the \<open>while 1\<close> loop.\<close>

definition pass_body ::
  "bool \<Rightarrow> model \<Rightarrow> fields \<Rightarrow> fields \<Rightarrow> bool \<Rightarrow> bool \<Rightarrow> pyval \<Rightarrow> cmd list \<Rightarrow> store \<Rightarrow>
   ((error + nat) \<times> store) pass" where
  "pass_body use_lua cls old new full delete pk others s =
     (case gather use_lua cls old new full delete pk s of
        Inl e \<Rightarrow> Return (Inl e, s)
      | Inr w \<Rightarrow>
          (let key = fmt_pair (m_name cls) (py_str pk); id_only = py_str pk in
           if delete then
             execute (w\<lparr>w_changes := w_changes w + 1,
                        w_pipe := w_pipe w @ [GUnindex (m_name cls) id_only, Delete key]\<rparr>) others s
           else if use_lua then
             (case redis_writer_lua (m_name cls) id_only (w_unique w) (w_udeleted w) (w_deleted w)
                     (w_data w) (w_keys w) (w_scores w) s of
                (Inl e, s') \<Rightarrow> Return (Inl e, s')
              | (Inr _, s') \<Rightarrow> Return (Inr (w_changes w), s'))
           else
             execute (w\<lparr>w_pipe := w_pipe w @
                          (if w_data w \<noteq> [] then [HMSet key (render (w_data w))] else []) @
                          [GIndex (m_name cls) id_only (w_keys w) (render (w_scores w))]\<rparr>) others s))"

partial_function (option) apply_loop ::
  "bool \<Rightarrow> model \<Rightarrow> fields \<Rightarrow> fields \<Rightarrow> bool \<Rightarrow> bool \<Rightarrow> pyval \<Rightarrow> (nat \<Rightarrow> cmd list) \<Rightarrow> nat \<Rightarrow> store \<Rightarrow>
   ((error + nat) \<times> store) option" where
  "apply_loop use_lua cls old new full delete pk env i s =
     (case pass_body use_lua cls old new full delete pk (env i) s of
        Return r \<Rightarrow> Some r
      | Retry s' \<Rightarrow> apply_loop use_lua cls old new full delete pk env (Suc i) s')"

declare apply_loop.simps [code]

text \<open>\<open>pk = old.get(cls._pkey) or new.get(cls._pkey)\<close>.\<close>

definition primary_key :: "model \<Rightarrow> fields \<Rightarrow> fields \<Rightarrow> pyval" where
  "primary_key cls old new =
     (case m_pkey cls of
        None \<Rightarrow> PNone
      | Some a \<Rightarrow> if truthy (dget old a) then dget old a else dget new a)"

text \<open>
  \<open>Model._apply_changes(cls, old, new, full, delete)\<close> with \<open>USE_LUA\<close> as
  \<open>use_lua\<close>, against the store \<open>s\<close> and the other clients \<open>env\<close>. \<open>None\<close>: the
  call does not return.
\<close>

definition apply_changes ::
  "bool \<Rightarrow> model \<Rightarrow> fields \<Rightarrow> fields \<Rightarrow> bool \<Rightarrow> bool \<Rightarrow> (nat \<Rightarrow> cmd list) \<Rightarrow> store \<Rightarrow>
   ((error + nat) \<times> store) option" where
  "apply_changes use_lua cls old new full delete env s =
     (let pk = primary_key cls old new in
      if \<not> truthy pk then Some (Inl (ColumnError ''Missing primary key value''), s)
      else apply_loop use_lua cls old new full delete pk env 0 s)"

text \<open>
  The store that pass \<open>i\<close> of the loop starts from when every earlier pass was dropped:
  the initial store with the other clients' writes of the earlier passes applied in turn.
\<close>

fun store_at :: "(nat \<Rightarrow> cmd list) \<Rightarrow> store \<Rightarrow> nat \<Rightarrow> store" where
  "store_at env s 0 = s"
| "store_at env s (Suc i) = exec_cmds (env i) (store_at env s i)"

section \<open>Fetching entities\<close>








section \<open>A sample schema\<close>

text \<open>
  The model of the package's documentation, with an indexed column added:
  \<^verbatim>\<open>
  class User(Model):
      email = String(required=True, unique=True)
      name = String(index=True, keygen=token_keygen)
  \<close>
  \<open>token_keygen\<close> indexes the whole value as one token; \<open>raw_keygen\<close> breaks the
  contract by returning the value itself.
\<close>

definition token_keygen :: "pyval \<Rightarrow> generated" where
  "token_keygen v = GKeys [py_str v]"

definition raw_keygen :: "pyval \<Rightarrow> generated" where
  "raw_keygen v = GValue v"

definition parse_nothing :: "string \<Rightarrow> int option" where
  "parse_nothing s = None"

definition User_body :: "(string \<times> member) list" where
  "User_body = [(''email'', Col (String True True None)),
                (''name'', Col (String False False (Some token_keygen)))]"

definition User :: model where
  "User = \<lparr>m_name = ''User'', m_required = [''email''], m_index = [''name''],
           m_unique = [''email''],
           m_columns = [(''email'', String True True None),
                        (''name'', String False False (Some token_keygen)),
                        (''id'', PrimaryKey parse_nothing)],
           m_pkey = Some ''id''\<rparr>"

text \<open>A class body with two unique columns, and the class it would make under Lua.\<close>

definition Account_body :: "(string \<times> member) list" where
  "Account_body = [(''email'', Col (String True True None)),
                   (''nick'', Col (String False True None))]"

definition Account :: model where
  "Account = \<lparr>m_name = ''Account'', m_required = [''email''], m_index = [],
              m_unique = [''email'', ''nick''],
              m_columns = [(''email'', String True True None),
                           (''nick'', String False True None),
                           (''id'', PrimaryKey parse_nothing)],
              m_pkey = Some ''id''\<rparr>"

text \<open>A class whose column \<open>bio\<close> has the key generator that breaks the contract.\<close>

definition Profile :: model where
  "Profile = \<lparr>m_name = ''Profile'', m_required = [], m_index = [''bio''], m_unique = [],
              m_columns = [(''id'', PrimaryKey parse_nothing),
                           (''bio'', String False False (Some raw_keygen))],
              m_pkey = Some ''id''\<rparr>"

definition empty_store :: store where
  "empty_store = \<lparr>hashes = (\<lambda>k. Map.empty), sets = (\<lambda>k. {}), zsets = (\<lambda>k. Map.empty),
                  counters = Map.empty, manifests = (\<lambda>k. Map.empty)\<rparr>"

text \<open>A store in which user 2 is saved and holds the address \<open>a@x.com\<close>.\<close>

definition taken_store :: store where
  "taken_store =
     hset ''User:email:uidx'' ''a@x.com'' ''2''
       (hmset ''User:2'' [(''id'', ''2''), (''email'', ''a@x.com'')] empty_store)"

text \<open>Other clients: none; one that rewrites the unique index of \<open>User.email\<close> in every pass;
  one that does so in the first pass only.\<close>

definition quiet :: "nat \<Rightarrow> cmd list" where
  "quiet i = []"

definition hostile :: "nat \<Rightarrow> cmd list" where
  "hostile i = [HSet ''User:email:uidx'' ''z@x.com'' ''9'']"

definition once :: "nat \<Rightarrow> cmd list" where
  "once i = (if i = 0 then [HSet ''User:email:uidx'' ''z@x.com'' ''9''] else [])"

text \<open>The fields of user 1, and the same user without an address.\<close>

definition ann :: fields where
  "ann = [''id'' \<mapsto> PInt 1, ''email'' \<mapsto> PStr ''a@x.com'', ''name'' \<mapsto> PStr ''ann'']"


text \<open>The fields of a profile whose \<open>bio\<close> is set, and of one whose \<open>bio\<close> is empty.\<close>

definition hello_profile :: fields where
  "hello_profile = [''id'' \<mapsto> PInt 1, ''bio'' \<mapsto> PStr ''hello'']"

definition blank_profile :: fields where
  "blank_profile = [''id'' \<mapsto> PInt 1, ''bio'' \<mapsto> PStr []]"



text \<open>An account, and a store in which account 2 is saved and holds the nickname \<open>ann\<close>.\<close>

definition acct :: fields where
  "acct = [''id'' \<mapsto> PInt 1, ''email'' \<mapsto> PStr ''a@x.com'', ''nick'' \<mapsto> PStr ''ann'']"

definition nick_taken_store :: store where
  "nick_taken_store =
     hset ''Account:nick:uidx'' ''ann'' ''2''
       (hmset ''Account:2'' [(''id'', ''2''), (''email'', ''b@x.com''), (''nick'', ''ann'')] empty_store)"

text \<open>
  A class whose column \<open>bio\<close> has a key generator that returns the plain score \<open>0\<close>
  whatever the value.
\<close>

definition zero_keygen :: "pyval \<Rightarrow> generated" where
  "zero_keygen v = GValue (PInt 0)"

definition Scored :: model where
  "Scored = \<lparr>m_name = ''Scored'', m_required = [], m_index = [''bio''], m_unique = [],
             m_columns = [(''id'', PrimaryKey parse_nothing),
                          (''bio'', String False False (Some zero_keygen))],
             m_pkey = Some ''id''\<rparr>"

section \<open>Properties of the query builder\<close>




text \<open>
  Claim C7. \<open>count()\<close> on a query that has no filter and no \<open>order_by\<close> raises
  \<open>QueryError\<close> at the call: the index is not asked and no number comes back.
\<close>

theorem count_needs_criteria:
  "q_filters q = [] \<Longrightarrow> \<not> truthy (q_order_by q) \<Longrightarrow>
   Query_count gindex_count q = Inl (QueryError ''You are missing filter or order criteria'')"
  by (simp add: Query_count_def count_filters_def)

theorem count_needs_criteria_witness:
  "q_filters (Query_init ''User'') = [] \<and> \<not> truthy (q_order_by (Query_init ''User'')) \<and>
   Query_count (\<lambda>fs. 7) (Query_init ''User'') =
     Inl (QueryError ''You are missing filter or order criteria'')"
  using count_needs_criteria [of "Query_init ''User''" "\<lambda>fs. 7"]
  by (simp add: Query_init_def)



section \<open>Properties of declaration, construction and lookup\<close>

text \<open>The sample classes are the ones the metaclass makes of their bodies.\<close>

lemma User_declared:
  "ModelMetaclass_new False parse_nothing {} ''User'' [] User_body = Inr User"
  by (simp add: ModelMetaclass_new_def merge_bases_def dict_update_def User_body_def User_def
      is_pkey_member_def String_def PrimaryKey_def record_column_def record_unique_pkey_def
      set_add_def Let_def)

lemma Account_declared:
  "ModelMetaclass_new True parse_nothing {} ''Account'' [] Account_body = Inr Account"
  by (simp add: ModelMetaclass_new_def merge_bases_def dict_update_def Account_body_def Account_def
      is_pkey_member_def String_def PrimaryKey_def record_column_def record_unique_pkey_def
      set_add_def Let_def)

lemma set_add_nonempty: "set_add x xs \<noteq> []"
  by (auto simp: set_add_def)

lemma m_unique_record_column [simp]: "m_unique (record_column attr col acc) = m_unique acc"
  by (simp add: record_column_def Let_def)

lemma m_unique_record_unique_pkey [simp]:
  "m_unique (record_unique_pkey attr col acc) =
     (if c_unique col then set_add attr (m_unique acc) else m_unique acc)"
  by (simp add: record_unique_pkey_def Let_def)

lemma validate_columns_second_unique:
  "m_unique acc \<noteq> [] \<Longrightarrow> \<exists>p \<in> set xs. is_unique_member (snd p) \<Longrightarrow>
   validate_columns False xs acc = Inl (ColumnError ''Only one unique column allowed'')"
proof (induction xs arbitrary: acc)
  case Nil
  then show ?case by simp
next
  case (Cons p xs)
  obtain attr m where p: "p = (attr, m)" by (cases p)
  show ?case
  proof (cases m)
    case NotAColumn
    with Cons p show ?thesis by (simp add: is_unique_member_def)
  next
    case (Col col)
    show ?thesis
    proof (cases "c_unique col")
      case True
      with Cons.prems p Col show ?thesis by simp
    next
      case False
      with Cons.prems p Col have ex: "\<exists>p \<in> set xs. is_unique_member (snd p)"
        by (auto simp: is_unique_member_def)
      have "m_unique (record_unique_pkey attr col (record_column attr col acc)) \<noteq> []"
        using False Cons.prems(1) by simp
      from Cons.IH [OF this ex] show ?thesis using False p Col by simp
    qed
  qed
qed

lemma validate_columns_two_unique:
  "2 \<le> length (filter (\<lambda>p. is_unique_member (snd p)) xs) \<Longrightarrow>
   validate_columns False xs acc = Inl (ColumnError ''Only one unique column allowed'')"
proof (induction xs arbitrary: acc)
  case Nil
  then show ?case by simp
next
  case (Cons p xs)
  obtain attr m where p: "p = (attr, m)" by (cases p)
  show ?case
  proof (cases m)
    case NotAColumn
    with Cons p show ?thesis by (simp add: is_unique_member_def)
  next
    case (Col col)
    show ?thesis
    proof (cases "c_unique col")
      case False
      with Cons.prems p Col have "2 \<le> length (filter (\<lambda>p. is_unique_member (snd p)) xs)"
        by (simp add: is_unique_member_def)
      from Cons.IH [OF this] show ?thesis using False p Col by simp
    next
      case True
      with Cons.prems p Col have "1 \<le> length (filter (\<lambda>p. is_unique_member (snd p)) xs)"
        by (simp add: is_unique_member_def)
      then have "filter (\<lambda>p. is_unique_member (snd p)) xs \<noteq> []" by auto
      then have ex: "\<exists>p \<in> set xs. is_unique_member (snd p)"
        by (auto simp: filter_empty_conv)
      have "m_unique (record_unique_pkey attr col (record_column attr col acc)) \<noteq> []"
        using True by (simp add: set_add_nonempty)
      from validate_columns_second_unique [OF this ex] show ?thesis using True p Col by simp
    qed
  qed
qed

lemma filter_dict_set_ge:
  "k \<notin> fst ` set d \<Longrightarrow> filter P (dict_set k v d) = filter P d @ filter P [(k, v)]"
  by (induction d) auto

text \<open>
  Claim C5. Without Lua, a class body whose columns (those of its bases included) hold two
  or more unique columns is refused when the class is made: the metaclass answers with an
  error, and with \<open>ColumnError\<close> whenever the name is not already taken (a taken name
  is reported first, as \<open>ORMError\<close>). Independently, \<open>_apply_changes\<close> on a class
  with more than one unique column raises \<open>ColumnError\<close> and leaves the store as it is.
\<close>

theorem two_unique_columns_rejected:
  assumes "\<not> use_lua"
    and "2 \<le> length (filter (\<lambda>p. is_unique_member (snd p)) (merge_bases bases dict))"
  shows "(\<exists>e. ModelMetaclass_new use_lua int_of_str MODELS name bases dict = Inl e) \<and>
         (name \<notin> MODELS \<longrightarrow>
            (\<exists>msg. ModelMetaclass_new use_lua int_of_str MODELS name bases dict = Inl (ColumnError msg))) \<and>
         (1 < length (m_unique cls) \<longrightarrow>
            (\<exists>msg. apply_changes use_lua cls old new full delete env s = Some (Inl (ColumnError msg), s)))"
proof -
  let ?od = "merge_bases bases dict"
  from assms(1) have lua: "use_lua = False" by simp
  have a: "\<exists>msg. ModelMetaclass_new use_lua int_of_str MODELS name bases dict = Inl (ColumnError msg)"
    if fresh: "name \<notin> MODELS"
  proof (cases "\<not> list_ex (\<lambda>(a, m). is_pkey_member m) ?od")
    case False
    then show ?thesis using fresh assms(2) lua
      by (simp add: ModelMetaclass_new_def Let_def validate_columns_two_unique)
  next
    case nopk: True
    show ?thesis
    proof (cases "''id'' \<in> fst ` set ?od")
      case True
      with nopk fresh show ?thesis by (simp add: ModelMetaclass_new_def Let_def)
    next
      case False
      then have "filter (\<lambda>p. is_unique_member (snd p)) (dict_set ''id'' (Col (PrimaryKey int_of_str)) ?od)
                 = filter (\<lambda>p. is_unique_member (snd p)) ?od @
                   filter (\<lambda>p. is_unique_member (snd p)) [(''id'', Col (PrimaryKey int_of_str))]"
        by (rule filter_dict_set_ge)
      with assms(2) have
        "2 \<le> length (filter (\<lambda>p. is_unique_member (snd p)) (dict_set ''id'' (Col (PrimaryKey int_of_str)) ?od))"
        by simp
      from validate_columns_two_unique [OF this] show ?thesis
        using nopk False fresh lua by (simp add: ModelMetaclass_new_def Let_def)
    qed
  qed
  have b: "\<exists>e. ModelMetaclass_new use_lua int_of_str MODELS name bases dict = Inl e"
  proof (cases "name \<in> MODELS")
    case True
    then show ?thesis by (simp add: ModelMetaclass_new_def)
  next
    case False
    with a show ?thesis by blast
  qed
  have c: "\<exists>msg. apply_changes use_lua cls old new full delete env s = Some (Inl (ColumnError msg), s)"
    if "1 < length (m_unique cls)"
    using that assms(1)
    by (simp add: apply_changes_def Let_def apply_loop.simps pass_body_def gather_def)
  from a b c show ?thesis by blast
qed

lemma assigning_primary_key_raises:
  "e_init obj \<Longrightarrow> map_of (m_columns cls) attr = Some ca \<Longrightarrow> c_class ca = PrimaryKeyColumn \<Longrightarrow>
   setattr int_of_str MODELS cls attr v obj s =
     (Inl (InvalidOperation ''Cannot update primary key value''), s)"
  by (simp add: setattr_def column_set_def)

lemma truthy_primary_key_rejected:
  "e_new obj \<Longrightarrow> m_pkey cls = Some attr \<Longrightarrow> truthy (dget kwargs attr) \<Longrightarrow>
   init_columns int_of_str MODELS cls kwargs ((attr, ca) # rest) obj s =
     (Inl (InvalidColumnValue ''Cannot pass primary key on object creation''), s)"
  by simp

text \<open>
  Claim C9. Constructing a new \<open>User\<close> with \<open>id=0\<close> is not rejected: the guard of
  \<open>Model.__init__\<close> tests the truth value of the supplied key, so the entity is built
  with primary key \<open>0\<close> and no key is drawn from the counter.
\<close>

theorem primary_key_zero_accepted:
  "\<exists>e. Model_init parse_nothing {} User False [''id'' \<mapsto> PInt 0, ''email'' \<mapsto> PStr ''a@x.com'']
          empty_store = (Inr e, empty_store) \<and>
        e_new e \<and> e_data e ''id'' = Some (PInt 0)"
  by (simp add: Model_init_def User_def String_def PrimaryKey_def dget_def column_set_def
      Column_init_def Column_validate_def PrimaryKey_init_def py_int_def is_str_def Let_def)









theorem two_unique_columns_rejected_witness:
  "\<not> False \<and>
   2 \<le> length (filter (\<lambda>p. is_unique_member (snd p)) (merge_bases [] Account_body)) \<and>
   ''Account'' \<notin> ({} :: string set) \<and> 1 < length (m_unique Account) \<and>
   (\<exists>msg. ModelMetaclass_new False parse_nothing {} ''Account'' [] Account_body = Inl (ColumnError msg)) \<and>
   (\<exists>msg. apply_changes False Account Map.empty [''id'' \<mapsto> PInt 1] True False quiet empty_store =
            Some (Inl (ColumnError msg), empty_store))"
  using two_unique_columns_rejected
    [of False "[]" Account_body parse_nothing "{}" "''Account''" Account Map.empty
        "[''id'' \<mapsto> PInt 1]" True False quiet empty_store]
  by (simp add: merge_bases_def dict_update_def Account_body_def is_unique_member_def String_def
      Account_def)


section \<open>Key generators\<close>

lemma column_loop_append:
  "column_loop use_lua cls old new full delete pk (pre @ rest) w =
     (case column_loop use_lua cls old new full delete pk pre w of
        Inl e \<Rightarrow> Inl e
      | Inr w' \<Rightarrow> column_loop use_lua cls old new full delete pk rest w')"
proof (induction pre arbitrary: w)
  case Nil
  then show ?case by simp
next
  case (Cons p pre)
  obtain attr ca where "p = (attr, ca)" by (cases p)
  with Cons show ?case by (simp split: sum.splits)
qed

lemma column_step_bad_keygen:
  assumes "dget old attr = PNone \<or> c_from_redis ca (dget old attr) \<noteq> None"
    and "c_keygen ca = Some g" and "\<not> delete" and "dget new attr \<noteq> PNone"
    and "g (dget new attr) = GValue v" and "truthy v"
  shows "column_step use_lua cls old new full delete pk attr ca w =
           Inl (ColumnError ''Don't know how to turn the value into a sequence of keys'')"
  using assms
  by (auto simp: column_step_def index_step_def keygen_called_def add_generated_def Let_def
      split: option.splits)

lemma write_step_index:
  "w_keys (write_step use_lua key pk full ikey attr roval oval nval rnval w) = w_keys w \<and>
   w_scores (write_step use_lua key pk full ikey attr roval oval nval rnval w) = w_scores w"
  by (cases ikey; cases use_lua) (simp_all add: write_step_def Let_def)

text \<open>
  Claim C8, as stated, fails. A key generator that returns the score \<open>0\<close>, which is
  neither a collection of keys nor a dictionary of scores nor an empty or absent result,
  raises nothing: the save succeeds, and the index command it commits carries no key and
  no score.
\<close>

theorem zero_score_raises_nothing:
  "zero_keygen (dget hello_profile ''bio'') = GValue (PInt 0) \<and>
   apply_changes False Scored Map.empty hello_profile True False quiet empty_store =
     Some (Inr 2, exec_cmds [HMSet ''Scored:1'' [(''id'', ''1''), (''bio'', ''hello'')],
                             GIndex ''Scored'' ''1'' [] []] empty_store)"
proof -
  have z: "zero_keygen (dget hello_profile ''bio'') = GValue (PInt 0)"
    by (simp add: zero_keygen_def)
  have pk: "primary_key Scored Map.empty hello_profile = PInt 1"
    by (simp add: primary_key_def Scored_def hello_profile_def dget_def)
  have g: "gather False Scored Map.empty hello_profile True False (PInt 1) empty_store =
           Inr (new_work\<lparr>w_changes := 2,
                  w_data := [(''id'', PStr ''1''), (''bio'', PStr ''hello'')]\<rparr>)"
    by (simp add: gather_def Scored_def hello_profile_def dget_def String_def PrimaryKey_def
        column_step_def index_step_def keygen_called_def str_int_def str_nat.simps py_int_def
        add_generated_def zero_keygen_def write_step_def new_work_def Let_def)
  have n: "m_name Scored = ''Scored''" by (simp add: Scored_def)
  have one: "str_int 1 = ''1''" by (simp add: str_int_def str_nat.simps)
  have pb: "pass_body False Scored Map.empty hello_profile True False (PInt 1) (quiet 0) empty_store =
            Return (Inr 2, exec_cmds [HMSet ''Scored:1'' [(''id'', ''1''), (''bio'', ''hello'')],
                             GIndex ''Scored'' ''1'' [] []] empty_store)"
    by (simp add: pass_body_def g execute_def n one invalidated_def quiet_def new_work_def
        render_def fmt_pair_def exec_cmds_def Let_def)
  have "apply_loop False Scored Map.empty hello_profile True False (PInt 1) quiet 0 empty_store =
            Some (Inr 2, exec_cmds [HMSet ''Scored:1'' [(''id'', ''1''), (''bio'', ''hello'')],
                             GIndex ''Scored'' ''1'' [] []] empty_store)"
    by (subst apply_loop.simps) (simp add: pb)
  then have c: "apply_changes False Scored Map.empty hello_profile True False quiet empty_store =
            Some (Inr 2, exec_cmds [HMSet ''Scored:1'' [(''id'', ''1''), (''bio'', ''hello'')],
                             GIndex ''Scored'' ''1'' [] []] empty_store)"
    by (simp add: apply_changes_def pk)
  from z c show ?thesis by blast
qed

text \<open>
  Claim C8, amended. When the loop over the columns reaches an indexed column with a new
  value (the earlier columns passed, and the old value decodes) and its key generator
  returns a value that is neither a collection of keys nor a dictionary of scores, then: if
  the value is true, \<open>_apply_changes\<close> raises \<open>ColumnError\<close> there and then and the
  store is as before; if it is false (\<open>None\<close>, \<open>0\<close>, \<open>False\<close> or the empty
  string), the step of the column succeeds and leaves the collected keys and scores as
  they were.
\<close>

theorem bad_keygen_raises_at_apply:
  assumes "truthy (primary_key cls old new)"
    and "use_lua \<or> length (m_unique cls) \<le> 1"
    and "(if \<not> use_lua
          then unique_check cls old new full (primary_key cls old new) s (m_unique cls) []
          else Inr []) = Inr watched"
    and "m_columns cls = pre @ (attr, ca) # post"
    and "column_loop use_lua cls old new full delete (primary_key cls old new) pre
           (new_work\<lparr>w_watched := watched\<rparr>) = Inr w1"
    and "dget old attr = PNone \<or> c_from_redis ca (dget old attr) \<noteq> None"
    and "c_keygen ca = Some g" and "\<not> delete" and "dget new attr \<noteq> PNone"
    and "g (dget new attr) = GValue v"
  shows "(truthy v \<longrightarrow>
            apply_changes use_lua cls old new full delete env s =
              Some (Inl (ColumnError ''Don't know how to turn the value into a sequence of keys''), s)) \<and>
         (\<not> truthy v \<longrightarrow>
            (\<exists>w2. column_step use_lua cls old new full delete (primary_key cls old new) attr ca w1 =
                     Inr w2 \<and>
                   w_keys w2 = w_keys w1 \<and> w_scores w2 = w_scores w1))"
proof (intro conjI impI)
  assume v: "truthy v"
  let ?pk = "primary_key cls old new"
  have "column_loop use_lua cls old new full delete ?pk (m_columns cls) (new_work\<lparr>w_watched := watched\<rparr>)
        = Inl (ColumnError ''Don't know how to turn the value into a sequence of keys'')"
    using assms(5) column_step_bad_keygen [OF assms(6-10) v]
    by (simp add: assms(4) column_loop_append)
  with assms(2,3) have "gather use_lua cls old new full delete ?pk s
        = Inl (ColumnError ''Don't know how to turn the value into a sequence of keys'')"
    by (auto simp: gather_def split: if_splits)
  then show "apply_changes use_lua cls old new full delete env s =
              Some (Inl (ColumnError ''Don't know how to turn the value into a sequence of keys''), s)"
    using assms(1) by (simp add: apply_changes_def Let_def apply_loop.simps pass_body_def)
next
  assume nv: "\<not> truthy v"
  let ?pk = "primary_key cls old new"
  let ?d = "if dget old attr \<noteq> PNone then c_from_redis ca (dget old attr) else Some PNone"
  from assms(6) have "?d \<noteq> None" by auto
  then obtain oval where d: "?d = Some oval" by blast
  from nv assms(7-10) have i: "index_step attr ca delete (dget new attr) w1 = Inr w1"
    by (simp add: index_step_def keygen_called_def add_generated_def)
  have "column_step use_lua cls old new full delete ?pk attr ca w1 =
          Inr (write_step use_lua (fmt_pair (m_name cls) (py_str ?pk)) ?pk full
                 (if attr \<in> set (m_unique cls) then Some (uidx_key (m_name cls) attr) else None)
                 attr (dget old attr) oval (dget new attr)
                 (if dget new attr \<noteq> PNone then c_to_redis ca (dget new attr) else PNone) w1)"
    unfolding column_step_def Let_def d option.case i by simp
  then show "\<exists>w2. column_step use_lua cls old new full delete ?pk attr ca w1 = Inr w2 \<and>
                   w_keys w2 = w_keys w1 \<and> w_scores w2 = w_scores w1"
    by (simp add: write_step_index)
qed

theorem bad_keygen_raises_at_apply_witness:
  "raw_keygen (dget hello_profile ''bio'') = GValue (PStr ''hello'') \<and>
   apply_changes False Profile Map.empty hello_profile True False quiet empty_store =
     Some (Inl (ColumnError ''Don't know how to turn the value into a sequence of keys''), empty_store) \<and>
   zero_keygen (dget hello_profile ''bio'') = GValue (PInt 0) \<and>
   (\<exists>w1 w2. column_loop False Scored Map.empty hello_profile True False (PInt 1)
               [(''id'', PrimaryKey parse_nothing)] (new_work\<lparr>w_watched := []\<rparr>) = Inr w1 \<and>
            column_step False Scored Map.empty hello_profile True False (PInt 1) ''bio''
               (String False False (Some zero_keygen)) w1 = Inr w2 \<and>
            w_keys w2 = [] \<and> w_scores w2 = [])"
proof -
  have pk: "primary_key Profile Map.empty hello_profile = PInt 1"
    by (simp add: primary_key_def Profile_def hello_profile_def dget_def)
  have pk': "primary_key Scored Map.empty hello_profile = PInt 1"
    by (simp add: primary_key_def Scored_def hello_profile_def dget_def)
  have cols: "m_columns Profile = [(''id'', PrimaryKey parse_nothing)] @
                       (''bio'', String False False (Some raw_keygen)) # []"
    by (simp add: Profile_def)
  have cols': "m_columns Scored = [(''id'', PrimaryKey parse_nothing)] @
                       (''bio'', String False False (Some zero_keygen)) # []"
    by (simp add: Scored_def)
  have uc: "(if \<not> False
          then unique_check Profile Map.empty hello_profile True
                 (primary_key Profile Map.empty hello_profile) empty_store (m_unique Profile) []
          else Inr []) = Inr []"
    by (simp add: Profile_def)
  have uc': "(if \<not> False
          then unique_check Scored Map.empty hello_profile True
                 (primary_key Scored Map.empty hello_profile) empty_store (m_unique Scored) []
          else Inr []) = Inr []"
    by (simp add: Scored_def)
  have "\<exists>w1. column_loop False Profile Map.empty hello_profile True False (PInt 1)
           [(''id'', PrimaryKey parse_nothing)] (new_work\<lparr>w_watched := []\<rparr>) = Inr w1"
    by (simp add: column_step_def index_step_def keygen_called_def PrimaryKey_def dget_def Let_def)
  then obtain w1 where pre: "column_loop False Profile Map.empty hello_profile True False
           (primary_key Profile Map.empty hello_profile)
           [(''id'', PrimaryKey parse_nothing)] (new_work\<lparr>w_watched := []\<rparr>) = Inr w1"
    unfolding pk by blast
  have "\<exists>w1. column_loop False Scored Map.empty hello_profile True False (PInt 1)
           [(''id'', PrimaryKey parse_nothing)] (new_work\<lparr>w_watched := []\<rparr>) = Inr w1 \<and>
           w_keys w1 = [] \<and> w_scores w1 = []"
    by (simp add: column_step_def index_step_def keygen_called_def PrimaryKey_def dget_def Let_def
        write_step_index new_work_def)
  then obtain w1' where pre': "column_loop False Scored Map.empty hello_profile True False
           (primary_key Scored Map.empty hello_profile)
           [(''id'', PrimaryKey parse_nothing)] (new_work\<lparr>w_watched := []\<rparr>) = Inr w1'"
    and e1: "w_keys w1' = []" "w_scores w1' = []"
    unfolding pk' by blast
  have g: "raw_keygen (dget hello_profile ''bio'') = GValue (PStr ''hello'')"
    by (simp add: raw_keygen_def hello_profile_def dget_def)
  have g': "zero_keygen (dget hello_profile ''bio'') = GValue (PInt 0)"
    by (simp add: zero_keygen_def)
  have p1: "truthy (primary_key Profile Map.empty hello_profile)" by (simp add: pk)
  have p1': "truthy (primary_key Scored Map.empty hello_profile)" by (simp add: pk')
  have p2: "False \<or> length (m_unique Profile) \<le> 1" by (simp add: Profile_def)
  have p2': "False \<or> length (m_unique Scored) \<le> 1" by (simp add: Scored_def)
  have dec: "dget Map.empty ''bio'' = PNone \<or>
             c_from_redis (String False False (Some kg)) (dget Map.empty ''bio'') \<noteq> None" for kg
    by (simp add: dget_def)
  have kg: "c_keygen (String False False (Some k)) = Some k" for k
    by (simp add: String_def)
  have nd: "\<not> False" by simp
  have nn: "dget hello_profile ''bio'' \<noteq> PNone" by (simp add: hello_profile_def dget_def)
  have a: "apply_changes False Profile Map.empty hello_profile True False quiet empty_store =
     Some (Inl (ColumnError ''Don't know how to turn the value into a sequence of keys''), empty_store)"
    using bad_keygen_raises_at_apply [OF p1 p2 uc cols pre dec kg nd nn g, where env = quiet]
    by simp
  from bad_keygen_raises_at_apply [OF p1' p2' uc' cols' pre' dec kg nd nn g']
  obtain w2 where "column_step False Scored Map.empty hello_profile True False
                     (primary_key Scored Map.empty hello_profile) ''bio''
                     (String False False (Some zero_keygen)) w1' = Inr w2"
    and "w_keys w2 = w_keys w1'" and "w_scores w2 = w_scores w1'"
    by auto
  with pre' e1 have b: "\<exists>w1 w2. column_loop False Scored Map.empty hello_profile True False (PInt 1)
               [(''id'', PrimaryKey parse_nothing)] (new_work\<lparr>w_watched := []\<rparr>) = Inr w1 \<and>
            column_step False Scored Map.empty hello_profile True False (PInt 1) ''bio''
               (String False False (Some zero_keygen)) w1 = Inr w2 \<and>
            w_keys w2 = [] \<and> w_scores w2 = []"
    unfolding pk' by (intro exI [of _ w1'] exI [of _ w2]) simp
  from g a g' b show ?thesis by blast
qed

section \<open>The equality short-circuit\<close>




section \<open>The unique check\<close>

lemma uidx_key_inject [simp]: "uidx_key ns a = uidx_key ns b \<longleftrightarrow> a = b"
  by (simp add: uidx_key_def)

lemma unique_check_watched:
  "unique_check cls old new full pk s cols acc = Inr w \<Longrightarrow>
   w = acc @ map (uidx_key (m_name cls))
              (filter (\<lambda>c. needs_unique_check (the (map_of (m_columns cls) c)) old new full c) cols)"
proof (induction cols arbitrary: acc)
  case Nil
  then show ?case by simp
next
  case (Cons c cols)
  from Cons.prems obtain ca where ca: "map_of (m_columns cls) c = Some ca"
    by (cases "map_of (m_columns cls) c") auto
  show ?case
  proof (cases "needs_unique_check ca old new full c")
    case False
    with Cons.prems ca have "unique_check cls old new full pk s cols acc = Inr w" by simp
    from Cons.IH [OF this] False ca show ?thesis by simp
  next
    case True
    with Cons.prems ca have
      "unique_check cls old new full pk s cols (acc @ [uidx_key (m_name cls) c]) = Inr w"
      by (simp add: Let_def split: if_splits)
    from Cons.IH [OF this] True ca show ?thesis by simp
  qed
qed


lemma py_eq_None [simp]: "py_eq PNone v \<longleftrightarrow> v = PNone"
  by (cases v) simp_all










section \<open>Unique-constraint violations\<close>

lemma map_of_dict_set: "map_of (dict_set k v d) k' = (if k' = k then Some v else map_of d k')"
  by (induction d) auto

lemma keys_dict_set: "fst ` set (dict_set k v d) = insert k (fst ` set d)"
proof (induction d)
  case Nil
  then show ?case by simp
next
  case (Cons p d)
  obtain a b where "p = (a, b)" by (cases p)
  with Cons show ?case by (cases "k = a") auto
qed

lemma distinct_dict_set: "distinct (map fst d) \<Longrightarrow> distinct (map fst (dict_set k v d))"
proof (induction d)
  case Nil
  then show ?case by simp
next
  case (Cons p d)
  obtain a b where p: "p = (a, b)" by (cases p)
  show ?case
  proof (cases "k = a")
    case True
    with Cons.prems p show ?thesis by simp
  next
    case False
    from Cons.prems p have "a \<notin> fst ` set d" and "distinct (map fst d)" by simp_all
    with False Cons.IH p show ?thesis by (simp add: keys_dict_set)
  qed
qed

lemma write_step_unique:
  "w_unique (write_step use_lua key pk full ikey attr roval oval nval rnval w) =
     (if use_lua \<and> ikey \<noteq> None \<and> \<not> (py_eq nval oval \<and> \<not> full) \<and> \<not> (nval = PNone \<and> oval \<noteq> PNone)
      then dict_set attr rnval (w_unique w) else w_unique w)"
proof (cases "py_eq nval oval \<and> \<not> full")
  case True
  then show ?thesis by (simp add: write_step_def)
next
  case f: False
  then have c1: "(py_eq nval oval \<and> \<not> full) = False" by simp
  show ?thesis
  proof (cases "nval = PNone \<and> oval \<noteq> PNone")
    case True
    then have c2: "(nval = PNone \<and> oval \<noteq> PNone) = True" by simp
    show ?thesis unfolding write_step_def Let_def c1 c2 if_False if_True
      by (cases ikey; cases use_lua) simp_all
  next
    case False
    then have c2: "(nval = PNone \<and> oval \<noteq> PNone) = False" by simp
    show ?thesis unfolding write_step_def Let_def c1 c2 if_False
      by (cases ikey; cases use_lua) simp_all
  qed
qed

lemma index_step_unique:
  "index_step attr ca delete nval w = Inr w' \<Longrightarrow> w_unique w' = w_unique w"
proof (cases "keygen_called ca delete nval")
  case False
  assume "index_step attr ca delete nval w = Inr w'"
  with False show ?thesis by (simp add: index_step_def)
next
  case True
  assume "index_step attr ca delete nval w = Inr w'"
  with True have ag: "add_generated attr (the (c_keygen ca) nval) w = Inr w'"
    by (simp add: index_step_def)
  show ?thesis
  proof (cases "the (c_keygen ca) nval")
    case (GKeys ks)
    with ag have "w' = w\<lparr>w_keys := fold (\<lambda>k. set_add (fmt_pair attr k)) ks (w_keys w)\<rparr>"
      by (simp add: add_generated_def)
    then show ?thesis by simp
  next
    case (GScores kvs)
    with ag have "w' = w\<lparr>w_scores := fold (\<lambda>(k, v). dict_set (if k = [] then attr else fmt_pair attr k) v)
                              kvs (w_scores w)\<rparr>"
      by (simp add: add_generated_def)
    then show ?thesis by simp
  next
    case (GValue v)
    with ag have "w' = w" by (simp add: add_generated_def split: if_splits)
    then show ?thesis by simp
  qed
qed

text \<open>What one step of the column loop does to the dictionary \<open>unique\<close>.\<close>

lemma column_step_unique:
  assumes "column_step use_lua cls old new full delete pk attr ca w = Inr w'"
  shows "\<exists>oval. (if dget old attr \<noteq> PNone then c_from_redis ca (dget old attr) else Some PNone) = Some oval \<and>
           w_unique w' =
             (if use_lua \<and> attr \<in> set (m_unique cls) \<and> \<not> (py_eq (dget new attr) oval \<and> \<not> full) \<and>
                 \<not> (dget new attr = PNone \<and> oval \<noteq> PNone)
              then dict_set attr (if dget new attr \<noteq> PNone then c_to_redis ca (dget new attr) else PNone)
                     (w_unique w)
              else w_unique w)"
proof -
  let ?d = "if dget old attr \<noteq> PNone then c_from_redis ca (dget old attr) else Some PNone"
  from assms obtain oval where d: "?d = Some oval"
    unfolding column_step_def Let_def by (cases ?d) simp_all
  from assms obtain w1 where w1: "index_step attr ca delete (dget new attr) w = Inr w1"
    and w': "w' = write_step use_lua (fmt_pair (m_name cls) (py_str pk)) pk full
                    (if attr \<in> set (m_unique cls) then Some (uidx_key (m_name cls) attr) else None)
                    attr (dget old attr) oval (dget new attr)
                    (if dget new attr \<noteq> PNone then c_to_redis ca (dget new attr) else PNone) w1"
    unfolding column_step_def Let_def d option.case
    by (cases "index_step attr ca delete (dget new attr) w") simp_all
  have "w_unique w1 = w_unique w" by (rule index_step_unique [OF w1])
  then have "w_unique w' =
             (if use_lua \<and> attr \<in> set (m_unique cls) \<and> \<not> (py_eq (dget new attr) oval \<and> \<not> full) \<and>
                 \<not> (dget new attr = PNone \<and> oval \<noteq> PNone)
              then dict_set attr (if dget new attr \<noteq> PNone then c_to_redis ca (dget new attr) else PNone)
                     (w_unique w)
              else w_unique w)"
    unfolding w' write_step_unique by auto
  with d show ?thesis by blast
qed

lemma column_loop_unique_distinct:
  "column_loop use_lua cls old new full delete pk cols w = Inr w' \<Longrightarrow>
   distinct (map fst (w_unique w)) \<Longrightarrow> distinct (map fst (w_unique w'))"
proof (induction cols arbitrary: w)
  case Nil
  then show ?case by simp
next
  case (Cons p cols)
  obtain attr ca where p: "p = (attr, ca)" by (cases p)
  from Cons.prems(1) p obtain w1 where s1: "column_step use_lua cls old new full delete pk attr ca w = Inr w1"
    and rest: "column_loop use_lua cls old new full delete pk cols w1 = Inr w'"
    by (auto split: sum.splits)
  from column_step_unique [OF s1] Cons.prems(2) have "distinct (map fst (w_unique w1))"
    by (auto simp: distinct_dict_set split: if_splits)
  from Cons.IH [OF rest this] show ?case .
qed

lemma column_loop_unique_other:
  "column_loop use_lua cls old new full delete pk cols w = Inr w' \<Longrightarrow>
   attr \<notin> fst ` set cols \<Longrightarrow> map_of (w_unique w') attr = map_of (w_unique w) attr"
proof (induction cols arbitrary: w)
  case Nil
  then show ?case by simp
next
  case (Cons p cols)
  obtain b cb where p: "p = (b, cb)" by (cases p)
  from Cons.prems(1) p obtain w1 where s1: "column_step use_lua cls old new full delete pk b cb w = Inr w1"
    and rest: "column_loop use_lua cls old new full delete pk cols w1 = Inr w'"
    by (auto split: sum.splits)
  from Cons.prems(2) p have ne: "attr \<noteq> b" and nin: "attr \<notin> fst ` set cols" by auto
  from column_step_unique [OF s1] ne have "map_of (w_unique w1) attr = map_of (w_unique w) attr"
    by (auto simp: map_of_dict_set split: if_splits)
  with Cons.IH [OF rest nin] show ?case by simp
qed

text \<open>
  With Lua, a unique column that has a new value which differs from the old one (or with
  \<open>full\<close> set) ends up in \<open>unique\<close> under its encoded new value.
\<close>

lemma column_loop_unique_entry:
  "column_loop True cls old new full delete pk cols w = Inr w' \<Longrightarrow>
   (attr, ca) \<in> set cols \<Longrightarrow> distinct (map fst cols) \<Longrightarrow> attr \<in> set (m_unique cls) \<Longrightarrow>
   dget new attr \<noteq> PNone \<Longrightarrow>
   (if dget old attr \<noteq> PNone then c_from_redis ca (dget old attr) else Some PNone) = Some oval \<Longrightarrow>
   \<not> py_eq (dget new attr) oval \<or> full \<Longrightarrow>
   map_of (w_unique w') attr = Some (c_to_redis ca (dget new attr))"
proof (induction cols arbitrary: w)
  case Nil
  then show ?case by simp
next
  case (Cons p cols)
  obtain b cb where p: "p = (b, cb)" by (cases p)
  from Cons.prems(1) p obtain w1 where s1: "column_step True cls old new full delete pk b cb w = Inr w1"
    and rest: "column_loop True cls old new full delete pk cols w1 = Inr w'"
    by (auto split: sum.splits)
  show ?case
  proof (cases "(attr, ca) = (b, cb)")
    case True
    then have eq: "b = attr" "cb = ca" by simp_all
    from Cons.prems(3) p eq have nin: "attr \<notin> fst ` set cols" by simp
    from column_step_unique [OF s1] Cons.prems(4-7) eq
    have "map_of (w_unique w1) attr = Some (c_to_redis ca (dget new attr))"
      by (auto simp: map_of_dict_set)
    with column_loop_unique_other [OF rest nin] show ?thesis by simp
  next
    case False
    with Cons.prems(2) p have in_rest: "(attr, ca) \<in> set cols" by auto
    from Cons.prems(3) have "distinct (map fst cols)" by simp
    from Cons.IH [OF rest in_rest this Cons.prems(4-7)] show ?thesis .
  qed
qed

text \<open>The first pass of the script finds a column whose value another id holds.\<close>

lemma lua_unique_check_conflict:
  assumes "\<forall>p \<in> set u. lua_arg (snd p) \<noteq> None"
    and "(c, v) \<in> set u" and "lua_arg v = Some f"
    and "hget s (uidx_key ns c) f = Some other" and "other \<noteq> eid"
  shows "\<exists>c' v' f' other'. lua_unique_check ns eid u s = Some (LuaString c') \<and> (c', v') \<in> set u \<and>
           lua_arg v' = Some f' \<and> hget s (uidx_key ns c') f' = Some other' \<and> other' \<noteq> eid"
  using assms
proof (induction u)
  case Nil
  then show ?case by simp
next
  case (Cons p u)
  obtain b x where p: "p = (b, x)" by (cases p)
  from Cons.prems(1) p obtain g where g: "lua_arg x = Some g" by auto
  show ?case
  proof (cases "hget s (uidx_key ns b) g")
    case None
    with Cons.prems p g have in_rest: "(c, v) \<in> set u" by auto
    from Cons.prems(1) have "\<forall>p \<in> set u. lua_arg (snd p) \<noteq> None" by simp
    from Cons.IH [OF this in_rest Cons.prems(3-5)] obtain c' v' f' other' where
      r: "lua_unique_check ns eid u s = Some (LuaString c')" "(c', v') \<in> set u"
         "lua_arg v' = Some f'" "hget s (uidx_key ns c') f' = Some other'" "other' \<noteq> eid"
      by blast
    from r(1) None p g have "lua_unique_check ns eid (p # u) s = Some (LuaString c')" by simp
    with r(2-5) show ?thesis by (intro exI [of _ c'] exI [of _ v'] exI [of _ f'] exI [of _ other']) simp
  next
    case (Some known)
    show ?thesis
    proof (cases "known = eid")
      case False
      with Some p g have "lua_unique_check ns eid (p # u) s = Some (LuaString b)" by simp
      with Some False p g show ?thesis
        by (intro exI [of _ b] exI [of _ x] exI [of _ g] exI [of _ known]) simp
    next
      case True
      with Some Cons.prems p g have in_rest: "(c, v) \<in> set u" by auto
      from Cons.prems(1) have "\<forall>p \<in> set u. lua_arg (snd p) \<noteq> None" by simp
      from Cons.IH [OF this in_rest Cons.prems(3-5)] obtain c' v' f' other' where
        r: "lua_unique_check ns eid u s = Some (LuaString c')" "(c', v') \<in> set u"
           "lua_arg v' = Some f'" "hget s (uidx_key ns c') f' = Some other'" "other' \<noteq> eid"
        by blast
      from r(1) Some True p g have "lua_unique_check ns eid (p # u) s = Some (LuaString c')" by simp
      with r(2-5) show ?thesis by (intro exI [of _ c'] exI [of _ v'] exI [of _ f'] exI [of _ other']) simp
    qed
  qed
qed

lemma redis_writer_lua_conflict:
  assumes "distinct (map fst u)"
    and "\<forall>p \<in> set u. lua_arg (snd p) \<noteq> None"
    and "(c, v) \<in> set u" and "lua_arg v = Some f"
    and "hget s (uidx_key ns c) f = Some other" and "other \<noteq> eid"
  shows "\<exists>c' v' f' other'. redis_writer_lua ns eid u udelete deleted data keys scored s =
             (Inl (UniqueKeyViolation v' (uidx_key ns c')), s) \<and> (c', v') \<in> set u \<and>
           lua_arg v' = Some f' \<and> hget s (uidx_key ns c') f' = Some other' \<and> other' \<noteq> eid"
proof -
  from lua_unique_check_conflict [OF assms(2-6)] obtain c' v' f' other' where
    r: "lua_unique_check ns eid u s = Some (LuaString c')" "(c', v') \<in> set u"
       "lua_arg v' = Some f'" "hget s (uidx_key ns c') f' = Some other'" "other' \<noteq> eid"
    by blast
  from assms(1) r(2) have "map_of u c' = Some v'" by simp
  with r(1) have "redis_writer_lua ns eid u udelete deleted data keys scored s =
             (Inl (UniqueKeyViolation v' (uidx_key ns c')), s)"
    by (simp add: redis_writer_lua_def redis_writer_lua_script_def)
  with r(2-5) show ?thesis by blast
qed

lemma unique_check_single_conflict:
  assumes "map_of (m_columns cls) col = Some ca"
    and "needs_unique_check ca old new full col"
    and "hget s (uidx_key (m_name cls) col) (py_str (c_to_redis ca (dget new col))) = Some other"
    and "other \<noteq> []" and "other \<noteq> py_str pk"
  shows "unique_check cls old new full pk s [col] [] =
           Inl (UniqueKeyViolation (dget new col) (uidx_key (m_name cls) col))"
  using assms by (simp add: Let_def)

text \<open>
  Claim C1, as stated, fails. User 2 holds the address \<open>a@x.com\<close> in the unique index;
  an apply for user 1 whose old and new fields both carry that address, with \<open>full\<close>
  unset, raises nothing and reports 0 changes: an unchanged value is not checked.
\<close>

theorem unchanged_value_not_checked:
  "hget taken_store ''User:email:uidx'' ''a@x.com'' = Some ''2'' \<and>
   (\<exists>s'. apply_changes False User ann ann False False quiet taken_store = Some (Inr 0, s'))"
proof -
  have h: "hget taken_store ''User:email:uidx'' ''a@x.com'' = Some ''2''"
    by (simp add: taken_store_def hmset_def hget_def hset_def)
  have pk: "primary_key User ann ann = PInt 1"
    by (simp add: primary_key_def User_def ann_def dget_def)
  have g: "gather False User ann ann False False (PInt 1) taken_store =
           Inr (new_work\<lparr>w_keys := [''name:ann'']\<rparr>)"
    by (simp add: gather_def User_def ann_def needs_unique_check_def dget_def String_def
        PrimaryKey_def column_step_def index_step_def keygen_called_def str_int_def py_int_def
        add_generated_def token_keygen_def write_step_def new_work_def set_add_def fmt_pair_def
        Let_def)
  have "\<exists>s'. pass_body False User ann ann False False (PInt 1) (quiet 0) taken_store =
            Return (Inr 0, s')"
    by (simp add: pass_body_def g execute_def invalidated_def quiet_def new_work_def Let_def)
  then obtain s' where "pass_body False User ann ann False False (PInt 1) (quiet 0) taken_store =
            Return (Inr 0, s')" by blast
  then have "apply_loop False User ann ann False False (PInt 1) quiet 0 taken_store = Some (Inr 0, s')"
    by (subst apply_loop.simps) simp
  then have "apply_changes False User ann ann False False quiet taken_store = Some (Inr 0, s')"
    by (simp add: apply_changes_def pk)
  with h show ?thesis by blast
qed

text \<open>
  Claim C1, amended. Let the apply have a primary key and let another id hold the encoded
  new value of the unique column \<open>col\<close>. Without Lua, with at most one unique column, if
  the value is checked in this apply (it is true, and it differs from the stored old value
  or \<open>full\<close> is set), the apply raises \<open>UniqueKeyViolation\<close> with that value and the
  index key of \<open>col\<close>, and the store is as before. With Lua, when the apply is not a
  deletion, the column has a new value that differs from the old one (or \<open>full\<close> is set),
  the loop over the columns raises nothing and every value in \<open>unique\<close> can be passed
  to the script, the apply raises \<open>UniqueKeyViolation\<close> with a unique column and its new
  value that another id holds, and the store is as before: the first pass of the script
  answers before anything is written.
\<close>

theorem unique_conflict_rejected:
  assumes "truthy (primary_key cls old new)"
    and "col \<in> set (m_unique cls)"
    and "map_of (m_columns cls) col = Some ca"
    and "distinct (map fst (m_columns cls))"
    and "hget s (uidx_key (m_name cls) col) (py_str (c_to_redis ca (dget new col))) = Some other"
    and "other \<noteq> []" and "other \<noteq> py_str (primary_key cls old new)"
  shows "(\<not> use_lua \<and> length (m_unique cls) \<le> 1 \<and> needs_unique_check ca old new full col \<longrightarrow>
            apply_changes use_lua cls old new full delete env s =
              Some (Inl (UniqueKeyViolation (dget new col) (uidx_key (m_name cls) col)), s)) \<and>
         (use_lua \<and> \<not> delete \<and> dget new col \<noteq> PNone \<and>
          (if dget old col \<noteq> PNone then c_from_redis ca (dget old col) else Some PNone) = Some oval \<and>
          (\<not> py_eq (dget new col) oval \<or> full) \<and>
          lua_arg (c_to_redis ca (dget new col)) = Some (py_str (c_to_redis ca (dget new col))) \<and>
          gather use_lua cls old new full delete (primary_key cls old new) s = Inr w \<and>
          (\<forall>p \<in> set (w_unique w). lua_arg (snd p) \<noteq> None) \<longrightarrow>
            (\<exists>c' v' f' other'.
               apply_changes use_lua cls old new full delete env s =
                 Some (Inl (UniqueKeyViolation v' (uidx_key (m_name cls) c')), s) \<and>
               (c', v') \<in> set (w_unique w) \<and> lua_arg v' = Some f' \<and>
               hget s (uidx_key (m_name cls) c') f' = Some other' \<and>
               other' \<noteq> py_str (primary_key cls old new)))"
proof (intro conjI impI)
  let ?pk = "primary_key cls old new"
  assume a: "\<not> use_lua \<and> length (m_unique cls) \<le> 1 \<and> needs_unique_check ca old new full col"
  with assms(2) have single: "m_unique cls = [col]"
    by (cases "m_unique cls") auto
  from a have lua: "use_lua = False" by simp
  from a have "unique_check cls old new full ?pk s [col] [] =
           Inl (UniqueKeyViolation (dget new col) (uidx_key (m_name cls) col))"
    by (intro unique_check_single_conflict [OF assms(3) _ assms(5,6,7)]) simp
  then have "gather False cls old new full delete ?pk s =
           Inl (UniqueKeyViolation (dget new col) (uidx_key (m_name cls) col))"
    by (simp add: gather_def single)
  then have "pass_body False cls old new full delete ?pk (env 0) s =
           Return (Inl (UniqueKeyViolation (dget new col) (uidx_key (m_name cls) col)), s)"
    by (simp add: pass_body_def)
  then have "apply_loop False cls old new full delete ?pk env 0 s =
           Some (Inl (UniqueKeyViolation (dget new col) (uidx_key (m_name cls) col)), s)"
    by (subst apply_loop.simps) simp
  with assms(1) lua show "apply_changes use_lua cls old new full delete env s =
              Some (Inl (UniqueKeyViolation (dget new col) (uidx_key (m_name cls) col)), s)"
    by (simp add: apply_changes_def)
next
  let ?pk = "primary_key cls old new"
  let ?enc = "c_to_redis ca (dget new col)"
  assume a: "use_lua \<and> \<not> delete \<and> dget new col \<noteq> PNone \<and>
          (if dget old col \<noteq> PNone then c_from_redis ca (dget old col) else Some PNone) = Some oval \<and>
          (\<not> py_eq (dget new col) oval \<or> full) \<and>
          lua_arg ?enc = Some (py_str ?enc) \<and>
          gather use_lua cls old new full delete ?pk s = Inr w \<and>
          (\<forall>p \<in> set (w_unique w). lua_arg (snd p) \<noteq> None)"
  then have lua: "use_lua = True" and nd: "\<not> delete" by simp_all
  from a have "gather use_lua cls old new full delete ?pk s = Inr w" by blast
  then have g: "gather True cls old new full delete ?pk s = Inr w" unfolding lua .
  then have cl: "column_loop True cls old new full delete ?pk (m_columns cls)
                   (new_work\<lparr>w_watched := []\<rparr>) = Inr w"
    by (simp add: gather_def)
  from assms(3) have mem: "(col, ca) \<in> set (m_columns cls)" by (rule map_of_SomeD)
  from a have nn: "dget new col \<noteq> PNone"
    and dec: "(if dget old col \<noteq> PNone then c_from_redis ca (dget old col) else Some PNone) = Some oval"
    and ch: "\<not> py_eq (dget new col) oval \<or> full"
    and la: "lua_arg ?enc = Some (py_str ?enc)"
    and all: "\<forall>p \<in> set (w_unique w). lua_arg (snd p) \<noteq> None"
    by blast+
  have entry: "map_of (w_unique w) col = Some ?enc"
    by (rule column_loop_unique_entry [OF cl mem assms(4) assms(2) nn dec ch])
  have dist: "distinct (map fst (w_unique w))"
    by (rule column_loop_unique_distinct [OF cl]) (simp add: new_work_def)
  from entry have inu: "(col, ?enc) \<in> set (w_unique w)" by (rule map_of_SomeD)
  from redis_writer_lua_conflict [OF dist all inu la assms(5) assms(7)]
  obtain c' v' f' other' where
    r: "redis_writer_lua (m_name cls) (py_str ?pk) (w_unique w) (w_udeleted w) (w_deleted w)
          (w_data w) (w_keys w) (w_scores w) s =
             (Inl (UniqueKeyViolation v' (uidx_key (m_name cls) c')), s)"
       "(c', v') \<in> set (w_unique w)" "lua_arg v' = Some f'"
       "hget s (uidx_key (m_name cls) c') f' = Some other'" "other' \<noteq> py_str ?pk"
    by blast
  from g r(1) nd have "pass_body True cls old new full delete ?pk (env 0) s =
           Return (Inl (UniqueKeyViolation v' (uidx_key (m_name cls) c')), s)"
    by (simp add: pass_body_def Let_def)
  then have "apply_loop True cls old new full delete ?pk env 0 s =
           Some (Inl (UniqueKeyViolation v' (uidx_key (m_name cls) c')), s)"
    by (subst apply_loop.simps) simp
  with assms(1) lua have "apply_changes use_lua cls old new full delete env s =
                 Some (Inl (UniqueKeyViolation v' (uidx_key (m_name cls) c')), s)"
    by (simp add: apply_changes_def)
  with r(2-5) show "\<exists>c' v' f' other'.
               apply_changes use_lua cls old new full delete env s =
                 Some (Inl (UniqueKeyViolation v' (uidx_key (m_name cls) c')), s) \<and>
               (c', v') \<in> set (w_unique w) \<and> lua_arg v' = Some f' \<and>
               hget s (uidx_key (m_name cls) c') f' = Some other' \<and>
               other' \<noteq> py_str (primary_key cls old new)"
    by blast
qed

theorem unique_conflict_rejected_witness:
  "apply_changes False User Map.empty ann True False quiet taken_store =
     Some (Inl (UniqueKeyViolation (PStr ''a@x.com'') ''User:email:uidx''), taken_store) \<and>
   (\<exists>c' v'. apply_changes True Account Map.empty acct True False quiet nick_taken_store =
             Some (Inl (UniqueKeyViolation v' (uidx_key ''Account'' c')), nick_taken_store))"
proof -
  have one: "str_int 1 = ''1''" by (simp add: str_int_def str_nat.simps)
  have pk: "primary_key User Map.empty ann = PInt 1"
    by (simp add: primary_key_def User_def ann_def dget_def)
  have t: "truthy (primary_key User Map.empty ann)" by (simp add: pk)
  have u: "''email'' \<in> set (m_unique User)" by (simp add: User_def)
  have m: "map_of (m_columns User) ''email'' = Some (String True True None)" by (simp add: User_def)
  have d: "distinct (map fst (m_columns User))" by (simp add: User_def)
  have e: "dget ann ''email'' = PStr ''a@x.com''" by (simp add: ann_def dget_def)
  have h: "hget taken_store (uidx_key (m_name User) ''email'')
             (py_str (c_to_redis (String True True None) (dget ann ''email''))) = Some ''2''"
    by (simp add: e taken_store_def hmset_def hget_def hset_def uidx_key_def User_def String_def)
  have o1: "''2'' \<noteq> []" by simp
  have o2: "''2'' \<noteq> py_str (primary_key User Map.empty ann)" by (simp add: pk one)
  have n: "needs_unique_check (String True True None) Map.empty ann True ''email''"
    by (simp add: needs_unique_check_def e)
  have l: "length (m_unique User) \<le> 1" by (simp add: User_def)
  from unique_conflict_rejected [OF t u m d h o1 o2, where use_lua = False and full = True
      and delete = False and env = quiet] n l
  have A: "apply_changes False User Map.empty ann True False quiet taken_store =
     Some (Inl (UniqueKeyViolation (PStr ''a@x.com'') ''User:email:uidx''), taken_store)"
    by (simp add: e uidx_key_def User_def)
  have pk': "primary_key Account Map.empty acct = PInt 1"
    by (simp add: primary_key_def Account_def acct_def dget_def)
  have t': "truthy (primary_key Account Map.empty acct)" by (simp add: pk')
  have u': "''nick'' \<in> set (m_unique Account)" by (simp add: Account_def)
  have m': "map_of (m_columns Account) ''nick'' = Some (String False True None)"
    by (simp add: Account_def)
  have d': "distinct (map fst (m_columns Account))" by (simp add: Account_def)
  have e': "dget acct ''nick'' = PStr ''ann''" by (simp add: acct_def dget_def)
  have h': "hget nick_taken_store (uidx_key (m_name Account) ''nick'')
             (py_str (c_to_redis (String False True None) (dget acct ''nick''))) = Some ''2''"
    by (simp add: e' nick_taken_store_def hmset_def hget_def hset_def uidx_key_def Account_def String_def)
  have o2': "''2'' \<noteq> py_str (primary_key Account Map.empty acct)" by (simp add: pk' one)
  have la: "lua_arg (c_to_redis (String False True None) (dget acct ''nick'')) =
            Some (py_str (c_to_redis (String False True None) (dget acct ''nick'')))"
    by (simp add: e' String_def)
  have dec: "(if dget Map.empty ''nick'' \<noteq> PNone
              then c_from_redis (String False True None) (dget Map.empty ''nick'') else Some PNone) =
             Some PNone"
    by (simp add: dget_def)
  have "\<exists>w. gather True Account Map.empty acct True False (PInt 1) nick_taken_store = Inr w \<and>
            w_unique w = [(''email'', PStr ''a@x.com''), (''nick'', PStr ''ann'')]"
    by (simp add: gather_def Account_def acct_def dget_def String_def PrimaryKey_def
        column_step_def index_step_def keygen_called_def py_int_def write_step_def new_work_def
        Let_def)
  then obtain w where g: "gather True Account Map.empty acct True False
                            (primary_key Account Map.empty acct) nick_taken_store = Inr w"
    and wu: "w_unique w = [(''email'', PStr ''a@x.com''), (''nick'', PStr ''ann'')]"
    unfolding pk' by blast
  have all: "\<forall>p \<in> set (w_unique w). lua_arg (snd p) \<noteq> None" by (simp add: wu)
  have nn: "dget acct ''nick'' \<noteq> PNone" by (simp add: e')
  from unique_conflict_rejected [OF t' u' m' d' h' o1 o2', where use_lua = True and full = True
      and delete = False and env = quiet and oval = PNone and w = w] nn dec la g all
  have "\<exists>c' v' f' other'.
               apply_changes True Account Map.empty acct True False quiet nick_taken_store =
                 Some (Inl (UniqueKeyViolation v' (uidx_key (m_name Account) c')), nick_taken_store) \<and>
               (c', v') \<in> set (w_unique w) \<and> lua_arg v' = Some f' \<and>
               hget nick_taken_store (uidx_key (m_name Account) c') f' = Some other' \<and>
               other' \<noteq> py_str (primary_key Account Map.empty acct)"
    by blast
  then have B: "\<exists>c' v'. apply_changes True Account Map.empty acct True False quiet nick_taken_store =
             Some (Inl (UniqueKeyViolation v' (uidx_key ''Account'' c')), nick_taken_store)"
    by (auto simp: Account_def)
  from A B show ?thesis by blast
qed

section \<open>The retry loop\<close>

lemma quiet_pass_returns:
  "\<exists>r. pass_body use_lua cls old new full delete pk [] s = Return r"
  by (auto simp: pass_body_def execute_def invalidated_def Let_def split: sum.splits prod.splits)

lemma apply_loop_quiet_tail:
  assumes "\<forall>j\<ge>n. env j = []"
  shows "\<exists>r. apply_loop use_lua cls old new full delete pk env i s = Some r"
proof (induction "n - i" arbitrary: i s)
  case 0
  then have "env i = []" using assms by simp
  with quiet_pass_returns [of use_lua cls old new full delete pk s] show ?case
    by (subst apply_loop.simps) auto
next
  case (Suc k)
  show ?case
  proof (cases "pass_body use_lua cls old new full delete pk (env i) s")
    case (Return r)
    then show ?thesis by (subst apply_loop.simps) simp
  next
    case (Retry s')
    from Suc.hyps(2) have "k = n - Suc i" by simp
    from Suc.hyps(1) [OF this] obtain r where
      "apply_loop use_lua cls old new full delete pk env (Suc i) s' = Some r" by blast
    with Retry show ?thesis by (subst apply_loop.simps) simp
  qed
qed

lemma apply_loop_diverges_aux:
  assumes ret: "apply_loop use_lua cls old new full delete pk env i s = Some y"
  shows "(\<forall>j t. I t \<longrightarrow> (\<exists>t'. pass_body use_lua cls old new full delete pk (env j) t = Retry t' \<and> I t')) \<longrightarrow>
         I s \<longrightarrow> False"
proof (rule apply_loop.raw_induct
    [where P = "\<lambda>use_lua cls old new full delete pk env i s y.
       (\<forall>j t. I t \<longrightarrow> (\<exists>t'. pass_body use_lua cls old new full delete pk (env j) t = Retry t' \<and> I t')) \<longrightarrow>
       I s \<longrightarrow> False", OF _ ret], goal_cases)
  case (1 f use_lua cls old new full delete pk env i s y)
  show ?case
  proof (intro impI)
    assume step: "\<forall>j t. I t \<longrightarrow> (\<exists>t'. pass_body use_lua cls old new full delete pk (env j) t = Retry t' \<and> I t')"
      and inv: "I s"
    from step inv obtain t' where t': "pass_body use_lua cls old new full delete pk (env i) s = Retry t'" "I t'"
      by blast
    with 1(2) have "f use_lua cls old new full delete pk env (Suc i) t' = Some y" by simp
    from 1(1) [OF this] step t'(2) show False by blast
  qed
qed

lemma apply_loop_diverges:
  assumes "\<And>j t. I t \<Longrightarrow> \<exists>t'. pass_body use_lua cls old new full delete pk (env j) t = Retry t' \<and> I t'"
    and "I s"
  shows "apply_loop use_lua cls old new full delete pk env i s = None"
proof (cases "apply_loop use_lua cls old new full delete pk env i s")
  case None
  then show ?thesis .
next
  case (Some y)
  from apply_loop_diverges_aux [OF Some, of I] assms show ?thesis by blast
qed

lemma hostile_pass_retries:
  assumes "hashes t ''User:email:uidx'' ''a@x.com'' = None"
  shows "\<exists>t'. pass_body False User Map.empty ann True False (PInt 1) (hostile j) t = Retry t' \<and>
              hashes t' ''User:email:uidx'' ''a@x.com'' = None"
  using assms
  by (simp add: pass_body_def gather_def User_def ann_def needs_unique_check_def dget_def String_def
      PrimaryKey_def hget_def uidx_key_def column_step_def index_step_def keygen_called_def
      add_generated_def token_keygen_def write_step_def new_work_def set_add_def fmt_pair_def
      execute_def invalidated_def hostile_def exec_cmds_def hset_def Let_def)

lemma write_step_watched:
  "w_watched (write_step use_lua key pk full ikey attr roval oval nval rnval w) = w_watched w"
  by (cases ikey; cases use_lua) (simp_all add: write_step_def Let_def)

lemma index_step_watched:
  "index_step attr ca delete nval w = Inr w' \<Longrightarrow> w_watched w' = w_watched w"
proof (cases "keygen_called ca delete nval")
  case False
  assume "index_step attr ca delete nval w = Inr w'"
  with False show ?thesis by (simp add: index_step_def)
next
  case True
  assume "index_step attr ca delete nval w = Inr w'"
  with True have ag: "add_generated attr (the (c_keygen ca) nval) w = Inr w'"
    by (simp add: index_step_def)
  show ?thesis
  proof (cases "the (c_keygen ca) nval")
    case (GKeys ks)
    with ag have "w' = w\<lparr>w_keys := fold (\<lambda>k. set_add (fmt_pair attr k)) ks (w_keys w)\<rparr>"
      by (simp add: add_generated_def)
    then show ?thesis by simp
  next
    case (GScores kvs)
    with ag have "w' = w\<lparr>w_scores := fold (\<lambda>(k, v). dict_set (if k = [] then attr else fmt_pair attr k) v)
                              kvs (w_scores w)\<rparr>"
      by (simp add: add_generated_def)
    then show ?thesis by simp
  next
    case (GValue v)
    with ag have "w' = w" by (simp add: add_generated_def split: if_splits)
    then show ?thesis by simp
  qed
qed

lemma column_step_watched:
  assumes "column_step use_lua cls old new full delete pk attr ca w = Inr w'"
  shows "w_watched w' = w_watched w"
proof -
  let ?d = "if dget old attr \<noteq> PNone then c_from_redis ca (dget old attr) else Some PNone"
  from assms obtain oval where d: "?d = Some oval"
    unfolding column_step_def Let_def by (cases ?d) simp_all
  from assms obtain w1 where w1: "index_step attr ca delete (dget new attr) w = Inr w1"
    and w': "w' = write_step use_lua (fmt_pair (m_name cls) (py_str pk)) pk full
                    (if attr \<in> set (m_unique cls) then Some (uidx_key (m_name cls) attr) else None)
                    attr (dget old attr) oval (dget new attr)
                    (if dget new attr \<noteq> PNone then c_to_redis ca (dget new attr) else PNone) w1"
    unfolding column_step_def Let_def d option.case
    by (cases "index_step attr ca delete (dget new attr) w") simp_all
  from index_step_watched [OF w1] show ?thesis by (simp add: w' write_step_watched)
qed

lemma column_loop_watched:
  "column_loop use_lua cls old new full delete pk cols w = Inr w' \<Longrightarrow> w_watched w' = w_watched w"
proof (induction cols arbitrary: w)
  case Nil
  then show ?case by simp
next
  case (Cons p cols)
  obtain attr ca where p: "p = (attr, ca)" by (cases p)
  from Cons.prems p obtain w1 where s1: "column_step use_lua cls old new full delete pk attr ca w = Inr w1"
    and rest: "column_loop use_lua cls old new full delete pk cols w1 = Inr w'"
    by (auto split: sum.splits)
  from Cons.IH [OF rest] column_step_watched [OF s1] show ?case by simp
qed

text \<open>
  The keys a pass has under \<open>WATCH\<close> when it reaches \<open>EXEC\<close>: none with Lua, and
  without it the unique-index keys of the columns whose value was checked.
\<close>

lemma gather_watched:
  assumes "gather use_lua cls old new full delete pk s = Inr w"
  shows "w_watched w =
           (if use_lua then []
            else map (uidx_key (m_name cls))
                   (filter (\<lambda>c. needs_unique_check (the (map_of (m_columns cls) c)) old new full c)
                      (m_unique cls)))"
proof (cases use_lua)
  case True
  with assms have "column_loop True cls old new full delete pk (m_columns cls)
                     (new_work\<lparr>w_watched := []\<rparr>) = Inr w"
    by (simp add: gather_def)
  from column_loop_watched [OF this] True show ?thesis by simp
next
  case False
  with assms obtain watched where
    uc: "unique_check cls old new full pk s (m_unique cls) [] = Inr watched"
    and cl: "column_loop False cls old new full delete pk (m_columns cls)
               (new_work\<lparr>w_watched := watched\<rparr>) = Inr w"
    by (auto simp: gather_def split: if_splits sum.splits)
  from column_loop_watched [OF cl] unique_check_watched [OF uc] False show ?thesis by simp
qed

text \<open>The three ways a pass ends.\<close>

lemma pass_body_cases:
  "pass_body use_lua cls old new full delete pk others s =
     (case gather use_lua cls old new full delete pk s of
        Inl e \<Rightarrow> Return (Inl e, s)
      | Inr w \<Rightarrow>
          if delete \<or> \<not> use_lua then
            (if \<exists>c \<in> set others. \<exists>k \<in> set (touched s c). k \<in> set (w_watched w)
             then Retry (exec_cmds others s)
             else Return (Inr (if delete then w_changes w + 1 else w_changes w),
                          exec_cmds
                            (if delete
                             then w_pipe w @ [GUnindex (m_name cls) (py_str pk),
                                              Delete (fmt_pair (m_name cls) (py_str pk))]
                             else w_pipe w @
                                  (if w_data w \<noteq> []
                                   then [HMSet (fmt_pair (m_name cls) (py_str pk)) (render (w_data w))]
                                   else []) @
                                  [GIndex (m_name cls) (py_str pk) (w_keys w) (render (w_scores w))])
                            (exec_cmds others s)))
          else
            (case redis_writer_lua (m_name cls) (py_str pk) (w_unique w) (w_udeleted w) (w_deleted w)
                    (w_data w) (w_keys w) (w_scores w) s of
               (Inl e, s') \<Rightarrow> Return (Inl e, s')
             | (Inr u, s') \<Rightarrow> Return (Inr (w_changes w), s')))"
proof (cases "gather use_lua cls old new full delete pk s")
  case (Inl e)
  then show ?thesis by (simp add: pass_body_def)
next
  case (Inr w)
  show ?thesis
  proof (cases delete)
    case True
    with Inr show ?thesis
      by (simp add: pass_body_def execute_def invalidated_def list_ex_iff Let_def)
  next
    case nd: False
    show ?thesis
    proof (cases use_lua)
      case True
      with Inr nd show ?thesis by (simp add: pass_body_def Let_def)
    next
      case False
      with Inr nd show ?thesis
        by (simp add: pass_body_def execute_def invalidated_def list_ex_iff Let_def)
    qed
  qed
qed

lemma pass_body_retry_iff:
  "(pass_body use_lua cls old new full delete pk others s = Retry s') =
     ((delete \<or> \<not> use_lua) \<and>
      (\<exists>w. gather use_lua cls old new full delete pk s = Inr w \<and>
           (\<exists>c \<in> set others. \<exists>k \<in> set (touched s c). k \<in> set (w_watched w))) \<and>
      s' = exec_cmds others s)"
proof (cases "gather use_lua cls old new full delete pk s")
  case (Inl e)
  then show ?thesis by (simp add: pass_body_cases)
next
  case (Inr w)
  show ?thesis
  proof (cases "delete \<or> \<not> use_lua")
    case True
    with Inr show ?thesis unfolding pass_body_cases by (auto split: if_splits)
  next
    case False
    with Inr show ?thesis unfolding pass_body_cases by (auto split: prod.splits sum.splits)
  qed
qed


lemma store_at_shift:
  "store_at (\<lambda>k. env (Suc i + k)) (exec_cmds (env i) s) j = store_at (\<lambda>k. env (i + k)) s (Suc j)"
  by (induction j) simp_all

lemma apply_loop_first_return:
  "(\<forall>j<n. \<exists>t. pass_body use_lua cls old new full delete pk (env (i + j))
                 (store_at (\<lambda>k. env (i + k)) s j) = Retry t) \<Longrightarrow>
   pass_body use_lua cls old new full delete pk (env (i + n)) (store_at (\<lambda>k. env (i + k)) s n) = Return r \<Longrightarrow>
   apply_loop use_lua cls old new full delete pk env i s = Some r"
proof (induction n arbitrary: i s)
  case 0
  then show ?case by (subst apply_loop.simps) simp
next
  case (Suc n)
  from Suc.prems(1) obtain t where
    t: "pass_body use_lua cls old new full delete pk (env i) s = Retry t"
    by fastforce
  then have t_eq: "t = exec_cmds (env i) s" by (simp add: pass_body_retry_iff)
  have a: "\<forall>j<n. \<exists>t'. pass_body use_lua cls old new full delete pk (env (Suc i + j))
                 (store_at (\<lambda>k. env (Suc i + k)) t j) = Retry t'"
  proof (intro allI impI)
    fix j assume "j < n"
    then have "Suc j < Suc n" by simp
    with Suc.prems(1) obtain t' where
      "pass_body use_lua cls old new full delete pk (env (i + Suc j))
         (store_at (\<lambda>k. env (i + k)) s (Suc j)) = Retry t'" by blast
    then show "\<exists>t'. pass_body use_lua cls old new full delete pk (env (Suc i + j))
                 (store_at (\<lambda>k. env (Suc i + k)) t j) = Retry t'"
      unfolding t_eq store_at_shift by simp
  qed
  have b: "pass_body use_lua cls old new full delete pk (env (Suc i + n))
             (store_at (\<lambda>k. env (Suc i + k)) t n) = Return r"
    using Suc.prems(2) unfolding t_eq store_at_shift by simp
  from Suc.IH [OF a b] t show ?case by (subst apply_loop.simps) simp
qed

lemma apply_loop_never_aux:
  assumes ret: "apply_loop use_lua cls old new full delete pk env i s = Some y"
  shows "(\<forall>j t. I j t \<longrightarrow> (\<exists>t'. pass_body use_lua cls old new full delete pk (env j) t = Retry t' \<and> I (Suc j) t')) \<longrightarrow>
         I i s \<longrightarrow> False"
proof (rule apply_loop.raw_induct
    [where P = "\<lambda>use_lua cls old new full delete pk env i s y.
       (\<forall>j t. I j t \<longrightarrow> (\<exists>t'. pass_body use_lua cls old new full delete pk (env j) t = Retry t' \<and> I (Suc j) t')) \<longrightarrow>
       I i s \<longrightarrow> False", OF _ ret], goal_cases)
  case (1 f use_lua cls old new full delete pk env i s y)
  show ?case
  proof (intro impI)
    assume step: "\<forall>j t. I j t \<longrightarrow> (\<exists>t'. pass_body use_lua cls old new full delete pk (env j) t = Retry t' \<and> I (Suc j) t')"
      and inv: "I i s"
    from step inv obtain t' where t': "pass_body use_lua cls old new full delete pk (env i) s = Retry t'" "I (Suc i) t'"
      by blast
    with 1(2) have "f use_lua cls old new full delete pk env (Suc i) t' = Some y" by simp
    from 1(1) [OF this] step t'(2) show False by blast
  qed
qed

lemma apply_loop_never_returns:
  assumes "\<forall>j. \<exists>t. pass_body use_lua cls old new full delete pk (env j) (store_at env s j) = Retry t"
  shows "apply_loop use_lua cls old new full delete pk env 0 s = None"
proof (cases "apply_loop use_lua cls old new full delete pk env 0 s")
  case None
  then show ?thesis .
next
  case (Some y)
  have step: "\<forall>j t. t = store_at env s j \<longrightarrow>
           (\<exists>t'. pass_body use_lua cls old new full delete pk (env j) t = Retry t' \<and> t' = store_at env s (Suc j))"
  proof (intro allI impI)
    fix j t assume t: "t = store_at env s j"
    from assms obtain t' where
      r: "pass_body use_lua cls old new full delete pk (env j) (store_at env s j) = Retry t'" by blast
    then have "t' = store_at env s (Suc j)" by (simp add: pass_body_retry_iff)
    with r t show "\<exists>t'. pass_body use_lua cls old new full delete pk (env j) t = Retry t' \<and> t' = store_at env s (Suc j)"
      by simp
  qed
  from apply_loop_never_aux [OF Some, of "\<lambda>j t. t = store_at env s j"] step show ?thesis by simp
qed

text \<open>
  Claim C2, as stated, fails. While another client rewrites the watched unique index in
  every pass, saving the new user never returns: the \<open>while 1\<close> loop has no ceiling and
  no error for giving up.
\<close>

theorem perpetual_invalidation_never_returns:
  "apply_changes False User Map.empty ann True False hostile empty_store = None"
proof -
  have pk: "primary_key User Map.empty ann = PInt 1"
    by (simp add: primary_key_def User_def ann_def dget_def)
  have "apply_loop False User Map.empty ann True False (PInt 1) hostile 0 empty_store = None"
    by (rule apply_loop_diverges [where I = "\<lambda>t. hashes t ''User:email:uidx'' ''a@x.com'' = None"])
       (simp_all add: hostile_pass_retries empty_store_def)
  with pk show ?thesis by (simp add: apply_changes_def)
qed

text \<open>
  Claim C2, amended. The loop has no ceiling and no error of its own. A pass is repeated
  exactly when it raised nothing, commits through \<open>EXEC\<close> (it is a deletion, or Lua is
  off) and another client wrote one of its watched keys before \<open>EXEC\<close>; the next pass
  starts from the store with those writes. Without Lua the watched keys are the
  unique-index keys of the unique columns whose value is checked. For an entity with a
  primary key, \<open>_apply_changes\<close> returns \<open>r\<close> exactly when \<open>r\<close> is the outcome of the
  first pass that is not repeated, and it never returns exactly when every pass is
  repeated. In particular it returns when the other clients stop writing from some pass on.
\<close>

theorem apply_retries_until_undisturbed:
  fixes use_lua full delete :: bool and cls :: model and old new :: fields
    and env :: "nat \<Rightarrow> cmd list" and s :: store
  defines "pk \<equiv> primary_key cls old new"
  defines "pass \<equiv> \<lambda>j. pass_body use_lua cls old new full delete (primary_key cls old new) (env j)
                         (store_at env s j)"
  assumes "truthy (primary_key cls old new)"
  shows "((pass_body use_lua cls old new full delete pk others t = Retry t') =
            ((delete \<or> \<not> use_lua) \<and>
             (\<exists>w. gather use_lua cls old new full delete pk t = Inr w \<and>
                  (\<exists>c \<in> set others. \<exists>k \<in> set (touched t c). k \<in> set (w_watched w))) \<and>
             t' = exec_cmds others t)) \<and>
         (gather False cls old new full delete pk t = Inr w \<longrightarrow>
            w_watched w =
              map (uidx_key (m_name cls))
                (filter (\<lambda>c. needs_unique_check (the (map_of (m_columns cls) c)) old new full c)
                   (m_unique cls))) \<and>
         ((apply_changes use_lua cls old new full delete env s = Some r) =
            (\<exists>n. (\<forall>j<n. \<exists>t. pass j = Retry t) \<and> pass n = Return r)) \<and>
         ((apply_changes use_lua cls old new full delete env s = None) =
            (\<forall>j. \<exists>t. pass j = Retry t)) \<and>
         ((\<forall>j\<ge>n. env j = []) \<longrightarrow>
            (\<exists>r. apply_changes use_lua cls old new full delete env s = Some r))"
proof -
  have ac: "apply_changes use_lua cls old new full delete env s =
            apply_loop use_lua cls old new full delete pk env 0 s"
    using assms(3) by (simp add: apply_changes_def pk_def Let_def)
  have fwd: "apply_changes use_lua cls old new full delete env s = Some r'"
    if "\<forall>j<m. \<exists>t. pass j = Retry t" and "pass m = Return r'" for m r'
    using apply_loop_first_return [of m use_lua cls old new full delete pk env 0 s r'] that
    unfolding ac pass_def pk_def by simp
  have never: "apply_changes use_lua cls old new full delete env s = None"
    if "\<forall>j. \<exists>t. pass j = Retry t"
    using apply_loop_never_returns [of use_lua cls old new full delete pk env s] that
    unfolding ac pass_def pk_def by simp
  have first: "\<exists>m r'. (\<forall>j<m. \<exists>t. pass j = Retry t) \<and> pass m = Return r'"
    if "\<not> (\<forall>j. \<exists>t. pass j = Retry t)"
  proof -
    from that obtain j0 where j0: "\<not> (\<exists>t. pass j0 = Retry t)" by blast
    define m where "m = (LEAST j. \<not> (\<exists>t. pass j = Retry t))"
    from j0 have nm: "\<not> (\<exists>t. pass m = Retry t)" unfolding m_def by (rule LeastI)
    have before: "\<forall>j<m. \<exists>t. pass j = Retry t"
    proof (intro allI impI)
      fix j assume "j < m"
      then have "\<not> \<not> (\<exists>t. pass j = Retry t)" unfolding m_def by (rule not_less_Least)
      then show "\<exists>t. pass j = Retry t" by simp
    qed
    from nm obtain r' where "pass m = Return r'" by (cases "pass m") auto
    with before show ?thesis by blast
  qed
  have A: "(apply_changes use_lua cls old new full delete env s = Some r) =
            (\<exists>n. (\<forall>j<n. \<exists>t. pass j = Retry t) \<and> pass n = Return r)"
  proof
    assume some: "apply_changes use_lua cls old new full delete env s = Some r"
    with never have "\<not> (\<forall>j. \<exists>t. pass j = Retry t)" by auto
    from first [OF this] obtain m r' where
      m: "\<forall>j<m. \<exists>t. pass j = Retry t" "pass m = Return r'" by blast
    from fwd [OF m] some have "r' = r" by simp
    with m show "\<exists>n. (\<forall>j<n. \<exists>t. pass j = Retry t) \<and> pass n = Return r" by blast
  next
    assume "\<exists>n. (\<forall>j<n. \<exists>t. pass j = Retry t) \<and> pass n = Return r"
    then show "apply_changes use_lua cls old new full delete env s = Some r" using fwd by blast
  qed
  have B: "(apply_changes use_lua cls old new full delete env s = None) =
            (\<forall>j. \<exists>t. pass j = Retry t)"
  proof
    assume none: "apply_changes use_lua cls old new full delete env s = None"
    show "\<forall>j. \<exists>t. pass j = Retry t"
    proof (rule ccontr)
      assume "\<not> (\<forall>j. \<exists>t. pass j = Retry t)"
      from first [OF this] obtain m r' where
        m: "\<forall>j<m. \<exists>t. pass j = Retry t" "pass m = Return r'" by blast
      from fwd [OF m] none show False by simp
    qed
  next
    assume "\<forall>j. \<exists>t. pass j = Retry t"
    then show "apply_changes use_lua cls old new full delete env s = None" by (rule never)
  qed
  have C: "(\<forall>j\<ge>n. env j = []) \<longrightarrow>
            (\<exists>r. apply_changes use_lua cls old new full delete env s = Some r)"
    using apply_loop_quiet_tail [of n env use_lua cls old new full delete pk 0 s]
    unfolding ac by blast
  have D: "gather False cls old new full delete pk t = Inr w \<longrightarrow>
            w_watched w =
              map (uidx_key (m_name cls))
                (filter (\<lambda>c. needs_unique_check (the (map_of (m_columns cls) c)) old new full c)
                   (m_unique cls))"
    using gather_watched [of False cls old new full delete pk t w] by simp
  from A B C D pass_body_retry_iff [of use_lua cls old new full delete pk others t t']
  show ?thesis by blast
qed

theorem apply_retries_until_undisturbed_witness:
  "truthy (primary_key User Map.empty ann) \<and>
   pass_body False User Map.empty ann True False (PInt 1) (once 0) empty_store =
     Retry (exec_cmds (once 0) empty_store) \<and>
   apply_changes False User Map.empty ann True False once empty_store =
     Some (Inr 3,
           exec_cmds [HSet ''User:email:uidx'' ''a@x.com'' ''1'',
                      HMSet ''User:1'' [(''email'', ''a@x.com''), (''name'', ''ann''), (''id'', ''1'')],
                      GIndex ''User'' ''1'' [''name:ann''] []]
             (exec_cmds (once 0) empty_store))"
proof -
  let ?r = "(Inr 3,
           exec_cmds [HSet ''User:email:uidx'' ''a@x.com'' ''1'',
                      HMSet ''User:1'' [(''email'', ''a@x.com''), (''name'', ''ann''), (''id'', ''1'')],
                      GIndex ''User'' ''1'' [''name:ann''] []]
             (exec_cmds (once 0) empty_store)) :: (error + nat) \<times> store"
  have pk: "primary_key User Map.empty ann = PInt 1"
    by (simp add: primary_key_def User_def ann_def dget_def)
  then have tr: "truthy (primary_key User Map.empty ann)" by simp
  have g: "gather False User Map.empty ann True False (PInt 1) t =
             Inr (new_work\<lparr>w_changes := 3, w_keys := [''name:ann''],
                    w_data := [(''email'', PStr ''a@x.com''), (''name'', PStr ''ann''),
                               (''id'', PStr ''1'')],
                    w_pipe := [HSet ''User:email:uidx'' ''a@x.com'' ''1''],
                    w_watched := [''User:email:uidx'']\<rparr>)"
    if "hashes t ''User:email:uidx'' ''a@x.com'' = None" for t
    using that
    by (simp add: gather_def User_def ann_def needs_unique_check_def dget_def String_def
        PrimaryKey_def hget_def uidx_key_def column_step_def index_step_def keygen_called_def
        add_generated_def token_keygen_def write_step_def new_work_def set_add_def fmt_pair_def
        str_int_def str_nat.simps py_int_def Let_def)
  have n: "m_name User = ''User''" by (simp add: User_def)
  have one: "str_int 1 = ''1''" by (simp add: str_int_def str_nat.simps)
  have h0: "hashes empty_store ''User:email:uidx'' ''a@x.com'' = None"
    by (simp add: empty_store_def)
  have h1: "hashes (exec_cmds (once 0) empty_store) ''User:email:uidx'' ''a@x.com'' = None"
    by (simp add: once_def exec_cmds_def hset_def empty_store_def)
  have p0: "pass_body False User Map.empty ann True False (PInt 1) (once 0) empty_store =
              Retry (exec_cmds (once 0) empty_store)"
    by (simp add: pass_body_def g [OF h0] execute_def invalidated_def new_work_def once_def Let_def)
  have p1: "pass_body False User Map.empty ann True False (PInt 1) (once (Suc 0))
              (exec_cmds (once 0) empty_store) = Return ?r"
    unfolding pass_body_def g [OF h1]
    by (simp add: execute_def invalidated_def new_work_def n one render_def fmt_pair_def Let_def)
       (simp add: once_def exec_cmds_def)
  have "\<exists>n. (\<forall>j<n. \<exists>t. pass_body False User Map.empty ann True False (primary_key User Map.empty ann)
                         (once j) (store_at once empty_store j) = Retry t) \<and>
            pass_body False User Map.empty ann True False (primary_key User Map.empty ann)
              (once n) (store_at once empty_store n) = Return ?r"
  proof (intro exI [of _ "Suc 0"] conjI allI impI)
    fix j :: nat assume "j < Suc 0"
    then have "j = 0" by simp
    with p0 show "\<exists>t. pass_body False User Map.empty ann True False (primary_key User Map.empty ann)
                         (once j) (store_at once empty_store j) = Retry t"
      by (simp add: pk)
  next
    from p1 show "pass_body False User Map.empty ann True False (primary_key User Map.empty ann)
              (once (Suc 0)) (store_at once empty_store (Suc 0)) = Return ?r"
      by (simp add: pk)
  qed
  with apply_retries_until_undisturbed [OF tr, where use_lua = False and full = True
      and delete = False and env = once and s = empty_store and r = ?r]
  have "apply_changes False User Map.empty ann True False once empty_store = Some ?r" by blast
  with tr p0 show ?thesis by blast
qed

end
